theory Spec2Isabelle
  imports Main "HOL-Library.Sublist" "HOL-Library.Word"
begin

unbundle bit_operations_syntax

section \<open>Vendor relay: the model of \<^verbatim>\<open>apps/vendor-relay/src/main.py\<close>\<close>

text \<open>
  Python \<^verbatim>\<open>str\<close> values are modelled as HOL strings whose characters are the code points
  below 256 (Latin-1). This is exactly the range of header values, which the transport
  decodes as Latin-1; payload text beyond Latin-1 is outside the model. Python
  \<^verbatim>\<open>bytes\<close> are HOL strings read as octets.
\<close>

subsection \<open>String operations of the Python standard library\<close>

text \<open>\<^verbatim>\<open>str.lower()\<close> on Latin-1: A-Z and the accented capitals (except the
  multiplication sign) move 32 code points up.\<close>

definition lower_char :: "char \<Rightarrow> char" where
  "lower_char c =
     (let n = (of_char c :: nat) in
      if (65 \<le> n \<and> n \<le> 90) \<or> (192 \<le> n \<and> n \<le> 222 \<and> n \<noteq> 215)
      then char_of (n + 32) else c)"

definition lower :: "string \<Rightarrow> string" where
  "lower s = map lower_char s"

text \<open>\<^verbatim>\<open>sub in s\<close>: \<open>sub\<close> occurs in \<open>s\<close> as a contiguous substring.\<close>

fun contains :: "string \<Rightarrow> string \<Rightarrow> bool" where
  "contains sub [] = (sub = [])"
| "contains sub (c # cs) = (prefix sub (c # cs) \<or> contains sub cs)"

text \<open>\<^verbatim>\<open>s.replace(old, new)\<close>: the occurrences of \<open>old\<close> are found from left to
  right and do not overlap. For an empty \<open>old\<close> Python puts \<open>new\<close> before every
  character and at the end.\<close>

fun replace_scan :: "string \<Rightarrow> string \<Rightarrow> string \<Rightarrow> string" where
  "replace_scan old new [] = []"
| "replace_scan old new (c # cs) =
     (if prefix old (c # cs)
      then new @ replace_scan old new (drop (length old - 1) cs)
      else c # replace_scan old new cs)"

definition str_replace :: "string \<Rightarrow> string \<Rightarrow> string \<Rightarrow> string" where
  "str_replace old new s =
     (if old = [] then new @ concat (map (\<lambda>c. c # new) s) else replace_scan old new s)"

subsection \<open>Payloads\<close>

text \<open>
  A payload is what \<^verbatim>\<open>Dict[str, Any]\<close> holds after the request body has been
  parsed: \<^verbatim>\<open>None\<close>, booleans, integers, floats, strings, lists and dictionaries.
  A float is carried by the text \<^verbatim>\<open>repr\<close> prints for it. A dictionary is the list of
  its items in insertion order.
\<close>

datatype json =
    JNull
  | JBool bool
  | JInt int
  | JFloat string
  | JStr string
  | JList "json list"
  | JDict "(string \<times> json) list"

type_synonym pydict = "(string \<times> json) list"

fun is_dict :: "json \<Rightarrow> bool" where
  "is_dict (JDict d) = True"
| "is_dict v = False"

subsection \<open>\<^verbatim>\<open>sanitize_vendor_data\<close>\<close>

definition vendor_fields :: "string list" where
  "vendor_fields =
     [''vendor_id'', ''customerscout_id'', ''cs_id'', ''vendor_name'',
      ''vendor_email'', ''vendor_phone'', ''vendor_contact'', ''cs_'']"

text \<open>\<^verbatim>\<open>any(field in key.lower() for field in vendor_fields)\<close>\<close>

definition has_vendor_field :: "string \<Rightarrow> bool" where
  "has_vendor_field key = list_ex (\<lambda>field. contains field (lower key)) vendor_fields"

definition replace_vendor_name :: "string \<Rightarrow> string" where
  "replace_vendor_name v = str_replace ''CustomerScout'' ''Rylie SEO'' v"

text \<open>
  The loop runs over a snapshot of the items of the copy; a key with a vendor field is
  deleted from the copy, any other key keeps its place and gets its new value. On the
  item list this is one pass that drops or rewrites each item. \<open>sanitize_value\<close> is the
  \<^verbatim>\<open>elif\<close> chain on the value, \<open>sanitize_each\<close> the list comprehension (reached only
  when every element is a dictionary).
\<close>

fun sanitize_vendor_data :: "pydict \<Rightarrow> pydict"
  and sanitize_value :: "json \<Rightarrow> json"
  and sanitize_each :: "json list \<Rightarrow> json list" where
  "sanitize_vendor_data [] = []"
| "sanitize_vendor_data ((key, v) # items) =
     (if has_vendor_field key then sanitize_vendor_data items
      else (key, sanitize_value v) # sanitize_vendor_data items)"
| "sanitize_value (JStr s) = JStr (replace_vendor_name s)"
| "sanitize_value (JDict d) = JDict (sanitize_vendor_data d)"
| "sanitize_value (JList xs) =
     (if list_all is_dict xs then JList (sanitize_each xs) else JList xs)"
| "sanitize_value JNull = JNull"
| "sanitize_value (JBool b) = JBool b"
| "sanitize_value (JInt i) = JInt i"
| "sanitize_value (JFloat r) = JFloat r"
| "sanitize_each [] = []"
| "sanitize_each (JDict d # xs) = JDict (sanitize_vendor_data d) # sanitize_each xs"
| "sanitize_each (x # xs) = x # sanitize_each xs"

text \<open>
  What the output is to be, in the words of the specification: no key containing a
  marker of vendor identity, \<^verbatim>\<open>vendor\<close>, \<^verbatim>\<open>cs_\<close> or \<^verbatim>\<open>customerscout\<close>, matched
  as a substring of the key whatever the case of its letters, and no vendor name in a
  string value, in nested dictionaries and in lists of dictionaries.
\<close>

definition identity_markers :: "string list" where
  "identity_markers = [''vendor'', ''cs_'', ''customerscout'']"

definition has_identity_marker :: "string \<Rightarrow> bool" where
  "has_identity_marker key = list_ex (\<lambda>marker. contains marker (lower key)) identity_markers"

fun clean_dict :: "pydict \<Rightarrow> bool"
  and clean_value :: "json \<Rightarrow> bool"
  and clean_each :: "json list \<Rightarrow> bool" where
  "clean_dict [] = True"
| "clean_dict ((key, v) # items) =
     (\<not> has_identity_marker key \<and> clean_value v \<and> clean_dict items)"
| "clean_value (JStr s) = (\<not> contains ''CustomerScout'' s)"
| "clean_value (JDict d) = clean_dict d"
| "clean_value (JList xs) = (if list_all is_dict xs then clean_each xs else True)"
| "clean_value JNull = True"
| "clean_value (JBool b) = True"
| "clean_value (JInt i) = True"
| "clean_value (JFloat r) = True"
| "clean_each [] = True"
| "clean_each (JDict d # xs) = (clean_dict d \<and> clean_each xs)"
| "clean_each (x # xs) = clean_each xs"


text \<open>
  \<open>visits p d\<close>: the call on the payload \<open>p\<close> reaches the dictionary \<open>d\<close>, that is,
  \<open>d\<close> is \<open>p\<close> itself, or sits under a key without vendor field in a dictionary that is
  reached, directly or as an element of a list of dictionaries.
\<close>

inductive visits :: "pydict \<Rightarrow> pydict \<Rightarrow> bool" where
  visits_self: "visits p p"
| visits_dict:
    "(key, JDict d) \<in> set p \<Longrightarrow> \<not> has_vendor_field key \<Longrightarrow> visits d e \<Longrightarrow> visits p e"
| visits_list:
    "(key, JList xs) \<in> set p \<Longrightarrow> \<not> has_vendor_field key \<Longrightarrow> list_all is_dict xs
       \<Longrightarrow> JDict d \<in> set xs \<Longrightarrow> visits d e \<Longrightarrow> visits p e"

subsection \<open>Failures and their status codes\<close>

text \<open>
  A handler or a dependency either returns or raises. \<open>HTTPException\<close> is what the code
  raises itself; \<open>Unhandled\<close> is any other Python exception that escapes (the general
  exception handler answers it); \<open>RequestValidationError\<close> is the framework's answer to
  a missing required header or a body that does not validate.
\<close>

datatype py_exception = TypeError | UnicodeDecodeError | RecursionError

datatype failure =
    HTTPException nat string
  | Unhandled py_exception
  | RequestValidationError

text \<open>\<^verbatim>\<open>http_exception_handler\<close>, \<^verbatim>\<open>general_exception_handler\<close> and the framework's
  default for validation errors.\<close>

fun status_code :: "failure \<Rightarrow> nat" where
  "status_code (HTTPException code detail) = code"
| "status_code (Unhandled e) = 500"
| "status_code RequestValidationError = 422"

definition HTTP_401_UNAUTHORIZED :: nat where "HTTP_401_UNAUTHORIZED = 401"
definition HTTP_403_FORBIDDEN :: nat where "HTTP_403_FORBIDDEN = 403"

subsection \<open>Encodings and digests\<close>

text \<open>\<^verbatim>\<open>str.encode()\<close> (UTF-8) of a Latin-1 string: one octet below 128, two above.\<close>

definition utf8_encode_char :: "char \<Rightarrow> string" where
  "utf8_encode_char c =
     (let n = (of_char c :: nat) in
      if n < 128 then [c] else [char_of (192 + n div 64), char_of (128 + n mod 64)])"

definition utf8_encode :: "string \<Rightarrow> string" where
  "utf8_encode s = concat (map utf8_encode_char s)"

text \<open>
  \<^verbatim>\<open>bytes.decode('utf-8')\<close> raises \<^verbatim>\<open>UnicodeDecodeError\<close> unless the octets are
  well-formed UTF-8 (no overlong form, no surrogate, nothing above U+10FFFF).
  \<open>utf8_ok\<close> reads the octets as numbers.
\<close>

definition continuation :: "nat \<Rightarrow> bool" where
  "continuation b = (128 \<le> b \<and> b \<le> 191)"

definition second_of3 :: "nat \<Rightarrow> nat \<Rightarrow> bool" where
  "second_of3 b c =
     (if b = 224 then 160 \<le> c \<and> c \<le> 191
      else if b = 237 then 128 \<le> c \<and> c \<le> 159
      else continuation c)"

definition second_of4 :: "nat \<Rightarrow> nat \<Rightarrow> bool" where
  "second_of4 b c =
     (if b = 240 then 144 \<le> c \<and> c \<le> 191
      else if b = 244 then 128 \<le> c \<and> c \<le> 143
      else continuation c)"

fun utf8_ok :: "nat list \<Rightarrow> bool" where
  "utf8_ok [] = True"
| "utf8_ok (b # bs) =
     (if b < 128 then utf8_ok bs
      else if 194 \<le> b \<and> b \<le> 223 then
        1 \<le> length bs \<and> continuation (bs ! 0) \<and> utf8_ok (drop 1 bs)
      else if 224 \<le> b \<and> b \<le> 239 then
        2 \<le> length bs \<and> second_of3 b (bs ! 0) \<and> continuation (bs ! 1) \<and> utf8_ok (drop 2 bs)
      else if 240 \<le> b \<and> b \<le> 244 then
        3 \<le> length bs \<and> second_of4 b (bs ! 0) \<and> continuation (bs ! 1)
          \<and> continuation (bs ! 2) \<and> utf8_ok (drop 3 bs)
      else False)"

definition utf8_valid :: "string \<Rightarrow> bool" where
  "utf8_valid bs = utf8_ok (map of_char bs)"

text \<open>
  \<^verbatim>\<open>hmac.new(key, msg, hashlib.sha256)\<close> is the standard library's; its digest is the
  parameter \<open>mac\<close> (key octets, message octets, digest octets) of everything that signs or
  verifies. \<^verbatim>\<open>hexdigest()\<close> prints each digest octet as two lower-case hexadecimal
  digits.
\<close>

type_synonym mac_fn = "string \<Rightarrow> string \<Rightarrow> string"

definition hex_digit :: "nat \<Rightarrow> char" where
  "hex_digit n = ''0123456789abcdef'' ! (n mod 16)"

definition hex_of_byte :: "char \<Rightarrow> string" where
  "hex_of_byte c = (let n = (of_char c :: nat) in [hex_digit (n div 16), hex_digit (n mod 16)])"

definition hexdigest :: "mac_fn \<Rightarrow> string \<Rightarrow> string \<Rightarrow> string" where
  "hexdigest mac key msg = concat (map hex_of_byte (mac key msg))"

text \<open>\<^verbatim>\<open>hmac.compare_digest(a, b)\<close> on two \<^verbatim>\<open>str\<close>: both must be ASCII, otherwise it
  raises \<^verbatim>\<open>TypeError\<close>; on ASCII strings it is equality.\<close>

definition is_ascii :: "char \<Rightarrow> bool" where
  "is_ascii c = ((of_char c :: nat) < 128)"

definition compare_digest :: "string \<Rightarrow> string \<Rightarrow> py_exception + bool" where
  "compare_digest a b =
     (if list_all is_ascii a \<and> list_all is_ascii b then Inr (a = b) else Inl TypeError)"

subsection \<open>\<^verbatim>\<open>int(s)\<close> and \<^verbatim>\<open>str(n)\<close>\<close>

text \<open>
  \<^verbatim>\<open>int(s)\<close> on a string: the whitespace that \<^verbatim>\<open>int\<close> skips at both ends is
  dropped, one sign is allowed, then decimal digits, with single underscores between
  digits. Anything else raises \<^verbatim>\<open>ValueError\<close>, here \<open>None\<close>. A header value is a
  string of characters below 256. Of these \<^verbatim>\<open>int\<close> skips the ASCII whitespace 9 to 13
  and 32, and the two other spaces 133 and 160; it does not skip the separators 28 to
  31, although \<^verbatim>\<open>str.isspace\<close> holds of them. A string with more digits than
  \<^verbatim>\<open>sys.int_max_str_digits\<close>, 4300 unless configured, raises \<^verbatim>\<open>ValueError\<close> too;
  the sign, the whitespace and the underscores do not count, leading zeros do.
\<close>

definition int_space :: "char \<Rightarrow> bool" where
  "int_space c =
     (let n = (of_char c :: nat) in (9 \<le> n \<and> n \<le> 13) \<or> n = 32 \<or> n = 133 \<or> n = 160)"

definition int_strip :: "string \<Rightarrow> string" where
  "int_strip s = rev (dropWhile int_space (rev (dropWhile int_space s)))"

definition int_max_str_digits :: int where
  "int_max_str_digits = 4300"

definition is_digit :: "char \<Rightarrow> bool" where
  "is_digit c = (let n = (of_char c :: nat) in 48 \<le> n \<and> n \<le> 57)"

definition digit_value :: "char \<Rightarrow> int" where
  "digit_value c = int (of_char c) - 48"

text \<open>\<open>after_digit\<close> tells whether the previous character was a digit: only then may an
  underscore or the end of the string follow.\<close>

fun digits_value :: "bool \<Rightarrow> int \<Rightarrow> string \<Rightarrow> int option" where
  "digits_value after_digit acc [] = (if after_digit then Some acc else None)"
| "digits_value after_digit acc (c # cs) =
     (if is_digit c then digits_value True (10 * acc + digit_value c) cs
      else if c = CHR ''_'' \<and> after_digit then digits_value False acc cs
      else None)"

definition python_int :: "string \<Rightarrow> int option" where
  "python_int s =
     (case int_strip s of
        [] \<Rightarrow> None
      | c # cs \<Rightarrow>
          let digits = (if c = CHR ''-'' \<or> c = CHR ''+'' then cs else c # cs) in
          if int (length (filter is_digit digits)) > int_max_str_digits then None
          else if c = CHR ''-'' then map_option uminus (digits_value False 0 digits)
          else digits_value False 0 digits)"

definition digit_char :: "nat \<Rightarrow> char" where
  "digit_char n = ''0123456789'' ! (n mod 10)"

function str_nat :: "nat \<Rightarrow> string" where
  "str_nat n = (if n < 10 then [digit_char n] else str_nat (n div 10) @ [digit_char n])"
  by pat_completeness auto
termination
  by (relation "measure id") auto

definition str_int :: "int \<Rightarrow> string" where
  "str_int i = (if i < 0 then CHR ''-'' # str_nat (nat (- i)) else str_nat (nat i))"

subsection \<open>\<^verbatim>\<open>verify_hmac\<close>\<close>

text \<open>
  The message is \<^verbatim>\<open>f"{x_vendor_timestamp}.{body.decode('utf-8')}"\<close>, encoded again
  for the digest; decoding well-formed UTF-8 and encoding it again gives the same
  octets, so the digest is taken over the encoded timestamp, a dot and the body.
  \<open>now\<close> is \<^verbatim>\<open>int(time.time())\<close>.
\<close>

definition signed_message :: "string \<Rightarrow> string \<Rightarrow> string" where
  "signed_message timestamp body = utf8_encode timestamp @ ''.'' @ body"

definition verify_hmac ::
  "mac_fn \<Rightarrow> string \<Rightarrow> int \<Rightarrow> string \<Rightarrow> string \<Rightarrow> string \<Rightarrow> failure + bool" where
  "verify_hmac mac secret now x_vendor_signature x_vendor_timestamp body =
     (if \<not> utf8_valid body then Inl (Unhandled UnicodeDecodeError)
      else
        let computed_signature =
              hexdigest mac (utf8_encode secret) (signed_message x_vendor_timestamp body)
        in case compare_digest computed_signature x_vendor_signature of
             Inl e \<Rightarrow> Inl (Unhandled e)
           | Inr False \<Rightarrow> Inl (HTTPException HTTP_401_UNAUTHORIZED ''Invalid signature'')
           | Inr True \<Rightarrow>
               (case python_int x_vendor_timestamp of
                  None \<Rightarrow> Inl (HTTPException HTTP_401_UNAUTHORIZED ''Invalid timestamp format'')
                | Some timestamp \<Rightarrow>
                    if \<bar>now - timestamp\<bar> > 300
                    then Inl (HTTPException HTTP_401_UNAUTHORIZED ''Expired timestamp'')
                    else Inr True))"

subsection \<open>\<^verbatim>\<open>verify_ip_allowlist\<close>\<close>

text \<open>\<^verbatim>\<open>IPv4Address(s)\<close>: four dot-separated octets, each one to three ASCII digits with
  no leading zero and at most 255; anything else raises a \<^verbatim>\<open>ValueError\<close>, here
  \<open>None\<close>.\<close>

fun split_dot :: "string \<Rightarrow> string list" where
  "split_dot [] = [[]]"
| "split_dot (c # cs) =
     (if c = CHR ''.'' then [] # split_dot cs
      else (case split_dot cs of [] \<Rightarrow> [[c]] | p # ps \<Rightarrow> (c # p) # ps))"

definition parse_octet :: "string \<Rightarrow> nat option" where
  "parse_octet octet_str =
     (if octet_str = [] then None
      else if \<not> list_all is_digit octet_str then None
      else if length octet_str > 3 then None
      else if octet_str \<noteq> ''0'' \<and> hd octet_str = CHR ''0'' then None
      else (case digits_value False 0 octet_str of
              None \<Rightarrow> None
            | Some n \<Rightarrow> if n > 255 then None else Some (nat n)))"

definition IPv4Address :: "string \<Rightarrow> 32 word option" where
  "IPv4Address ip_str =
     (if ip_str = [] then None
      else (case map parse_octet (split_dot ip_str) of
              [Some a, Some b, Some c, Some d] \<Rightarrow>
                Some (word_of_nat (((a * 256 + b) * 256 + c) * 256 + d))
            | _ \<Rightarrow> None))"

text \<open>An \<^verbatim>\<open>IPv4Network\<close> is its network address and prefix length; an address is in
  the network when its bits under the netmask are the network address.\<close>

record ipv4_network =
  network_address :: "32 word"
  prefixlen :: nat

definition netmask :: "ipv4_network \<Rightarrow> 32 word" where
  "netmask net = NOT (mask (32 - prefixlen net))"

definition in_network :: "32 word \<Rightarrow> ipv4_network \<Rightarrow> bool" where
  "in_network ip net = (ip AND netmask net = network_address net)"

text \<open>The \<^verbatim>\<open>for network in ALLOWED_IP_NETWORKS\<close> loop, which returns at the first
  network that holds the address.\<close>

fun in_allowed_networks :: "32 word \<Rightarrow> ipv4_network list \<Rightarrow> bool" where
  "in_allowed_networks ip [] = False"
| "in_allowed_networks ip (network # networks) =
     (if in_network ip network then True else in_allowed_networks ip networks)"

definition verify_ip_allowlist :: "ipv4_network list \<Rightarrow> string \<Rightarrow> failure + bool" where
  "verify_ip_allowlist allowed_ip_networks client_ip =
     (if client_ip = ''127.0.0.1'' \<or> client_ip = ''::1'' then Inr True
      else (case IPv4Address client_ip of
              None \<Rightarrow> Inl (HTTPException HTTP_403_FORBIDDEN ''Invalid IP format'')
            | Some client_ip_obj \<Rightarrow>
                if in_allowed_networks client_ip_obj allowed_ip_networks then Inr True
                else Inl (HTTPException HTTP_403_FORBIDDEN ''IP not in allowlist'')))"


subsection \<open>\<^verbatim>\<open>verify_internal_jwt\<close>\<close>

text \<open>
  \<^verbatim>\<open>jwt.decode(token, JWT_SECRET, algorithms=[JWT_ALGORITHM])\<close> is the library's: the
  parameter \<open>jwt_decode\<close> gives the claim set of a token, or the text of the
  \<^verbatim>\<open>PyJWTError\<close> it raises.
\<close>

type_synonym jwt_fn = "string \<Rightarrow> string + pydict"

text \<open>The token: the header without its \<^verbatim>\<open>Bearer\<close> prefix, if it has one.\<close>

definition bearer_token :: "string \<Rightarrow> string" where
  "bearer_token authorization =
     (if prefix ''Bearer '' authorization then drop 7 authorization else authorization)"

definition verify_internal_jwt :: "jwt_fn \<Rightarrow> string \<Rightarrow> failure + pydict" where
  "verify_internal_jwt jwt_decode authorization =
     (let token = bearer_token authorization
      in case jwt_decode token of
           Inl e \<Rightarrow> Inl (HTTPException HTTP_401_UNAUTHORIZED (''Invalid token: '' @ e))
         | Inr payload \<Rightarrow>
             if map_of payload ''sandbox_id'' = None
             then Inl (HTTPException HTTP_401_UNAUTHORIZED ''Invalid token: missing sandbox_id'')
             else Inr payload)"

subsection \<open>Request models and the audit table\<close>

record SeoTask =
  task_request_id :: string
  sandbox_id :: string
  task_type :: string
  task_title :: string
  task_description :: string
  priority :: string
  deadline :: "string option"
  task_details :: pydict

record SeoReport =
  report_request_id :: string
  report_type :: string
  report_title :: string
  summary :: string
  report_url :: "string option"
  metrics :: "pydict option"
  report_details :: pydict

record PublishNotification =
  publish_request_id :: string
  publish_type :: string
  publish_title :: string
  publish_description :: string
  published_url :: string
  publish_date :: string
  publish_details :: "pydict option"

text \<open>\<^verbatim>\<open>.dict()\<close> of each model: the fields in declaration order, an absent optional
  field as \<^verbatim>\<open>None\<close>.\<close>

definition opt_str :: "string option \<Rightarrow> json" where
  "opt_str v = (case v of None \<Rightarrow> JNull | Some s \<Rightarrow> JStr s)"

definition opt_dict :: "pydict option \<Rightarrow> json" where
  "opt_dict v = (case v of None \<Rightarrow> JNull | Some d \<Rightarrow> JDict d)"

definition task_dict :: "SeoTask \<Rightarrow> pydict" where
  "task_dict task =
     [(''request_id'', JStr (task_request_id task)),
      (''sandbox_id'', JStr (sandbox_id task)),
      (''task_type'', JStr (task_type task)),
      (''title'', JStr (task_title task)),
      (''description'', JStr (task_description task)),
      (''priority'', JStr (priority task)),
      (''deadline'', opt_str (deadline task)),
      (''details'', JDict (task_details task))]"

definition report_dict :: "SeoReport \<Rightarrow> pydict" where
  "report_dict report =
     [(''request_id'', JStr (report_request_id report)),
      (''report_type'', JStr (report_type report)),
      (''title'', JStr (report_title report)),
      (''summary'', JStr (summary report)),
      (''report_url'', opt_str (report_url report)),
      (''metrics'', opt_dict (metrics report)),
      (''details'', JDict (report_details report))]"

definition notification_dict :: "PublishNotification \<Rightarrow> pydict" where
  "notification_dict notification =
     [(''request_id'', JStr (publish_request_id notification)),
      (''publish_type'', JStr (publish_type notification)),
      (''title'', JStr (publish_title notification)),
      (''description'', JStr (publish_description notification)),
      (''published_url'', JStr (published_url notification)),
      (''publish_date'', JStr (publish_date notification)),
      (''details'', opt_dict (publish_details notification))]"

text \<open>A row of \<^verbatim>\<open>vendor_communications\<close>; the table is the list of its rows, oldest
  first.\<close>

record VendorCommunication =
  comm_id :: string
  request_id :: "string option"
  direction :: string
  message_type :: string
  payload :: pydict
  hmac_signature :: "string option"
  ip_address :: "string option"
  processed :: bool

type_synonym db = "VendorCommunication list"

text \<open>\<^verbatim>\<open>log_communication\<close>: \<open>new_id\<close> is \<^verbatim>\<open>str(uuid4())\<close>; \<^verbatim>\<open>db.add\<close> and
  \<^verbatim>\<open>db.commit\<close> append the row.\<close>

definition log_communication ::
  "db \<Rightarrow> string \<Rightarrow> string \<Rightarrow> string \<Rightarrow> pydict \<Rightarrow> string option \<Rightarrow> string option
     \<Rightarrow> string option \<Rightarrow> VendorCommunication \<times> db" where
  "log_communication session new_id dir mtype pl rid sig ip =
     (let comm = \<lparr>comm_id = new_id, request_id = rid, direction = dir, message_type = mtype,
                   payload = pl, hmac_signature = sig, ip_address = ip, processed = False\<rparr>
      in (comm, session @ [comm]))"

text \<open>The process-wide configuration read at start-up.\<close>

record settings =
  VENDOR_HMAC_SECRET :: string
  VENDOR_API_KEY :: string
  VENDOR_API_URL :: string
  ALLOWED_IP_NETWORKS :: "ipv4_network list"

text \<open>What a handler sees of an inbound request: the peer address, the two signature
  headers (absent or present) and the raw body.\<close>

record request =
  client_host :: string
  x_vendor_signature :: "string option"
  x_vendor_timestamp :: "string option"
  body :: string

subsection \<open>The inbound endpoints\<close>

text \<open>
  The three vendor endpoints declare \<^verbatim>\<open>_: bool = Depends(verify_hmac)\<close> and then
  \<^verbatim>\<open>__: bool = Depends(verify_ip_allowlist)\<close>. The framework solves dependencies in
  the order they are declared, and an exception raised by one ends the request. A
  dependency whose required header is missing is not called; the framework records the
  validation error, goes on with the next dependency, and answers 422 once all of them
  have returned.
\<close>

definition vendor_dependencies :: "mac_fn \<Rightarrow> settings \<Rightarrow> int \<Rightarrow> request \<Rightarrow> failure + unit" where
  "vendor_dependencies mac cfg now req =
     (case (x_vendor_signature req, x_vendor_timestamp req) of
        (Some sig, Some ts) \<Rightarrow>
          (case verify_hmac mac (VENDOR_HMAC_SECRET cfg) now sig ts (body req) of
             Inl e \<Rightarrow> Inl e
           | Inr _ \<Rightarrow>
               (case verify_ip_allowlist (ALLOWED_IP_NETWORKS cfg) (client_host req) of
                  Inl e \<Rightarrow> Inl e
                | Inr _ \<Rightarrow> Inr ()))
      | _ \<Rightarrow>
          (case verify_ip_allowlist (ALLOWED_IP_NETWORKS cfg) (client_host req) of
             Inl e \<Rightarrow> Inl e
           | Inr _ \<Rightarrow> Inl RequestValidationError))"

text \<open>
  \<open>report\<close> is the body as the framework validated it against \<^verbatim>\<open>SeoReport\<close>, \<open>None\<close>
  when it does not validate (the body is validated after the dependencies have been
  solved). The handler logs the report, computes the sanitized copy, which nothing reads
  yet, and answers.
\<close>

definition receive_seo_report ::
  "mac_fn \<Rightarrow> settings \<Rightarrow> int \<Rightarrow> string \<Rightarrow> db \<Rightarrow> request \<Rightarrow> SeoReport option
     \<Rightarrow> (failure + pydict) \<times> db" where
  "receive_seo_report mac cfg now new_id session req report =
     (case vendor_dependencies mac cfg now req of
        Inl e \<Rightarrow> (Inl e, session)
      | Inr _ \<Rightarrow>
          (case report of
             None \<Rightarrow> (Inl RequestValidationError, session)
           | Some r \<Rightarrow>
               let (comm, session') =
                     log_communication session new_id ''inbound'' ''report'' (report_dict r)
                       (Some (report_request_id r)) (x_vendor_signature req)
                       (Some (client_host req));
                   sanitized_report = sanitize_vendor_data (report_dict r)
               in (Inr [(''success'', JBool True),
                        (''message'', JStr ''Report received successfully'')],
                   session')))"

definition receive_publish_notification ::
  "mac_fn \<Rightarrow> settings \<Rightarrow> int \<Rightarrow> string \<Rightarrow> db \<Rightarrow> request \<Rightarrow> PublishNotification option
     \<Rightarrow> (failure + pydict) \<times> db" where
  "receive_publish_notification mac cfg now new_id session req notification =
     (case vendor_dependencies mac cfg now req of
        Inl e \<Rightarrow> (Inl e, session)
      | Inr _ \<Rightarrow>
          (case notification of
             None \<Rightarrow> (Inl RequestValidationError, session)
           | Some n \<Rightarrow>
               let (comm, session') =
                     log_communication session new_id ''inbound'' ''publish''
                       (notification_dict n) (Some (publish_request_id n))
                       (x_vendor_signature req) (Some (client_host req));
                   sanitized_notification = sanitize_vendor_data (notification_dict n)
               in (Inr [(''success'', JBool True),
                        (''message'', JStr ''Publish notification received successfully'')],
                   session')))"


text \<open>\<^verbatim>\<open>receive_vendor_file\<close>: \<open>form\<close> is the validated multipart form (the uploaded
  file, \<^verbatim>\<open>request_id\<close> and \<^verbatim>\<open>file_type\<close>), \<open>None\<close> when it does not validate.\<close>

record UploadFile =
  filename :: string
  content_type :: string
  file_content :: string

definition receive_vendor_file ::
  "mac_fn \<Rightarrow> settings \<Rightarrow> int \<Rightarrow> string \<Rightarrow> db \<Rightarrow> request
     \<Rightarrow> (UploadFile \<times> string \<times> string) option \<Rightarrow> (failure + pydict) \<times> db" where
  "receive_vendor_file mac cfg now new_id session req form =
     (case vendor_dependencies mac cfg now req of
        Inl e \<Rightarrow> (Inl e, session)
      | Inr _ \<Rightarrow>
          (case form of
             None \<Rightarrow> (Inl RequestValidationError, session)
           | Some (file, rid, file_type) \<Rightarrow>
               let file_bytes = file_content file;
                   (comm, session') =
                     log_communication session new_id ''inbound'' ''file''
                       [(''request_id'', JStr rid),
                        (''file_type'', JStr file_type),
                        (''filename'', JStr (filename file)),
                        (''content_type'', JStr (content_type file)),
                        (''size'', JInt (int (length file_bytes)))]
                       (Some rid) (x_vendor_signature req) (Some (client_host req))
               in (Inr [(''success'', JBool True),
                        (''message'', JStr ''File received successfully'')],
                   session')))"

subsection \<open>\<^verbatim>\<open>json.dumps\<close>\<close>

text \<open>
  The encoder of the standard library, with its separators and \<^verbatim>\<open>ensure_ascii\<close> as
  parameters. With \<^verbatim>\<open>ensure_ascii\<close> every character outside the printable ASCII
  range is written as a \<^verbatim>\<open>\u\<close> escape; without it only the control characters are.
\<close>

definition escape_char :: "bool \<Rightarrow> char \<Rightarrow> string" where
  "escape_char ensure_ascii c =
     (let n = (of_char c :: nat) in
      if n = 34 then [CHR 0x5C, CHR 0x22]
      else if n = 92 then [CHR 0x5C, CHR 0x5C]
      else if n = 10 then [CHR 0x5C, CHR ''n'']
      else if n = 13 then [CHR 0x5C, CHR ''r'']
      else if n = 9 then [CHR 0x5C, CHR ''t'']
      else if n = 8 then [CHR 0x5C, CHR ''b'']
      else if n = 12 then [CHR 0x5C, CHR ''f'']
      else if n < 32 \<or> (ensure_ascii \<and> 126 < n)
      then [CHR 0x5C, CHR ''u'', CHR ''0'', CHR ''0''] @ hex_of_byte c
      else [c])"

definition encode_basestring :: "bool \<Rightarrow> string \<Rightarrow> string" where
  "encode_basestring ensure_ascii s =
     [CHR 0x22] @ concat (map (escape_char ensure_ascii) s) @ [CHR 0x22]"

definition float_text :: "string \<Rightarrow> string" where
  "float_text r =
     (if r = ''nan'' then ''NaN'' else if r = ''inf'' then ''Infinity''
      else if r = ''-inf'' then ''-Infinity'' else r)"

fun dumps :: "string \<Rightarrow> string \<Rightarrow> bool \<Rightarrow> json \<Rightarrow> string"
  and dumps_list :: "string \<Rightarrow> string \<Rightarrow> bool \<Rightarrow> json list \<Rightarrow> string"
  and dumps_items :: "string \<Rightarrow> string \<Rightarrow> bool \<Rightarrow> pydict \<Rightarrow> string" where
  "dumps isep ksep ea JNull = ''null''"
| "dumps isep ksep ea (JBool b) = (if b then ''true'' else ''false'')"
| "dumps isep ksep ea (JInt i) = str_int i"
| "dumps isep ksep ea (JFloat r) = float_text r"
| "dumps isep ksep ea (JStr s) = encode_basestring ea s"
| "dumps isep ksep ea (JList xs) = ''['' @ dumps_list isep ksep ea xs @ '']''"
| "dumps isep ksep ea (JDict d) = ''{'' @ dumps_items isep ksep ea d @ ''}''"
| "dumps_list isep ksep ea [] = []"
| "dumps_list isep ksep ea (x # xs) =
     dumps isep ksep ea x @ (if xs = [] then [] else isep @ dumps_list isep ksep ea xs)"
| "dumps_items isep ksep ea [] = []"
| "dumps_items isep ksep ea ((key, v) # items) =
     encode_basestring ea key @ ksep @ dumps isep ksep ea v
       @ (if items = [] then [] else isep @ dumps_items isep ksep ea items)"

text \<open>\<^verbatim>\<open>json.dumps(data)\<close> with the defaults.\<close>

definition json_dumps :: "json \<Rightarrow> string" where
  "json_dumps v = dumps '', '' '': '' True v"

text \<open>The compact encoding (no space after the separators, no \<^verbatim>\<open>\u\<close> escapes for
  text, UTF-8 octets) that an HTTP client may use for a \<^verbatim>\<open>json=\<close> argument.\<close>

definition encode_json_compact :: "json \<Rightarrow> string" where
  "encode_json_compact v = utf8_encode (dumps '','' '':'' False v)"

subsection \<open>\<^verbatim>\<open>forward_to_vendor\<close> and \<^verbatim>\<open>submit_seo_task\<close>\<close>

record http_request =
  url :: string
  headers :: "(string \<times> string) list"
  content :: string

text \<open>
  The request that \<^verbatim>\<open>client.post(url, json=data, headers=headers)\<close> sends. The code
  signs \<^verbatim>\<open>json.dumps(data)\<close> and hands \<^verbatim>\<open>data\<close> itself to the client, which
  serialises it once more for the body: \<open>encode_json\<close> is the client's encoder.
\<close>

definition vendor_request ::
  "mac_fn \<Rightarrow> (json \<Rightarrow> string) \<Rightarrow> settings \<Rightarrow> int \<Rightarrow> string \<Rightarrow> pydict \<Rightarrow> http_request" where
  "vendor_request mac encode_json cfg now endpoint data =
     (let timestamp = str_int now;
          message = timestamp @ ''.'' @ json_dumps (JDict data);
          signature = hexdigest mac (utf8_encode (VENDOR_HMAC_SECRET cfg)) (utf8_encode message)
      in \<lparr>url = VENDOR_API_URL cfg @ ''/'' @ endpoint,
          headers = [(''X-API-Key'', VENDOR_API_KEY cfg),
                     (''Content-Type'', ''application/json''),
                     (''X-Timestamp'', timestamp),
                     (''X-Signature'', signature)],
          content = encode_json (JDict data)\<rparr>)"

text \<open>What the call to the vendor comes to, as the code tells it apart: a successful
  response with its JSON, an \<^verbatim>\<open>HTTPStatusError\<close> with the response's status and text,
  or a \<^verbatim>\<open>RequestError\<close>.\<close>

datatype vendor_outcome =
    VendorJson json
  | HTTPStatusError nat string
  | RequestError

definition forward_to_vendor ::
  "mac_fn \<Rightarrow> (json \<Rightarrow> string) \<Rightarrow> settings \<Rightarrow> int \<Rightarrow> (http_request \<Rightarrow> vendor_outcome)
     \<Rightarrow> string \<Rightarrow> pydict \<Rightarrow> failure + json" where
  "forward_to_vendor mac encode_json cfg now vendor endpoint data =
     (case vendor (vendor_request mac encode_json cfg now endpoint data) of
        VendorJson response \<Rightarrow> Inr response
      | HTTPStatusError code text \<Rightarrow> Inl (HTTPException code (''Vendor API error: '' @ text))
      | RequestError \<Rightarrow> Inl (HTTPException 503 ''Vendor API unavailable''))"

text \<open>\<open>task\<close> is the validated body (\<open>None\<close> when it does not validate); the token
  dependency is solved before the body is looked at.\<close>

definition submit_seo_task ::
  "mac_fn \<Rightarrow> (json \<Rightarrow> string) \<Rightarrow> settings \<Rightarrow> jwt_fn \<Rightarrow> int \<Rightarrow> (http_request \<Rightarrow> vendor_outcome)
     \<Rightarrow> string \<Rightarrow> db \<Rightarrow> string \<Rightarrow> SeoTask option \<Rightarrow> (failure + pydict) \<times> db" where
  "submit_seo_task mac encode_json cfg jwt_decode now vendor new_id session authorization task =
     (case verify_internal_jwt jwt_decode authorization of
        Inl e \<Rightarrow> (Inl e, session)
      | Inr jwt_payload \<Rightarrow>
          (case task of
             None \<Rightarrow> (Inl RequestValidationError, session)
           | Some t \<Rightarrow>
               if map_of jwt_payload ''sandbox_id'' \<noteq> Some (JStr (sandbox_id t))
               then (Inl (HTTPException HTTP_403_FORBIDDEN ''Sandbox ID mismatch''), session)
               else
                 let (comm, session') =
                       log_communication session new_id ''outbound'' ''task'' (task_dict t)
                         (Some (task_request_id t)) None None
                 in (case forward_to_vendor mac encode_json cfg now vendor ''tasks'' (task_dict t) of
                       Inl e \<Rightarrow> (Inl e, session')
                     | Inr vendor_response \<Rightarrow>
                         (Inr [(''success'', JBool True),
                               (''message'', JStr ''Task submitted successfully''),
                               (''task_id'', JStr (task_request_id t)),
                               (''status'', JStr ''pending'')],
                          session'))))"


subsection \<open>The default configuration and the sample messages of the test suite\<close>

text \<open>The values the module falls back on when the environment sets none; the default
  allowlist is \<^verbatim>\<open>127.0.0.1/32,10.0.0.0/8\<close>.\<close>

definition default_settings :: settings where
  "default_settings =
     \<lparr>VENDOR_HMAC_SECRET = ''dev-secret-change-in-production'',
      VENDOR_API_KEY = ''dev-api-key-change-in-production'',
      VENDOR_API_URL = ''https://api.customerscout.com/v1'',
      ALLOWED_IP_NETWORKS =
        [\<lparr>network_address = 0x7F000001, prefixlen = 32\<rparr>,
         \<lparr>network_address = 0x0A000000, prefixlen = 8\<rparr>]\<rparr>"

text \<open>
  \<^verbatim>\<open>generate_hmac_headers\<close> of the test suite signs \<^verbatim>\<open>json.dumps(body_json)\<close> with the
  time of the call; it gives the signature and the timestamp header. \<open>signed_request\<close> is
  the request that carries these headers and that text as its body, from the peer
  \<open>host\<close>.
\<close>

definition generate_hmac_headers :: "mac_fn \<Rightarrow> string \<Rightarrow> int \<Rightarrow> json \<Rightarrow> string \<times> string" where
  "generate_hmac_headers mac secret now body_json =
     (let timestamp = str_int now;
          message = timestamp @ ''.'' @ json_dumps body_json;
          signature = hexdigest mac (utf8_encode secret) (utf8_encode message)
      in (signature, timestamp))"

definition signed_request :: "mac_fn \<Rightarrow> string \<Rightarrow> int \<Rightarrow> string \<Rightarrow> json \<Rightarrow> request" where
  "signed_request mac secret now host body_json =
     \<lparr>client_host = host,
      x_vendor_signature = Some (fst (generate_hmac_headers mac secret now body_json)),
      x_vendor_timestamp = Some (snd (generate_hmac_headers mac secret now body_json)),
      body = utf8_encode (json_dumps body_json)\<rparr>"

text \<open>\<^verbatim>\<open>MOCK_SEO_TASK\<close>, \<^verbatim>\<open>MOCK_SEO_REPORT\<close> and \<^verbatim>\<open>MOCK_PUBLISH_NOTIFICATION\<close> of
  \<^verbatim>\<open>tests/test_main.py\<close>.\<close>

definition MOCK_SEO_TASK :: SeoTask where
  "MOCK_SEO_TASK =
     \<lparr>task_request_id = ''123e4567-e89b-12d3-a456-426614174000'',
      sandbox_id = ''123e4567-e89b-12d3-a456-426614174001'',
      task_type = ''page'',
      task_title = ''New Service Page'',
      task_description = ''Create a new service page for our dealership'',
      priority = ''high'',
      deadline = Some ''2025-06-15'',
      task_details =
        [(''url'', JStr ''/services/oil-change''),
         (''seoTitle'', JStr ''Oil Change Service | Example Dealership''),
         (''metaDescription'',
          JStr ''Professional oil change service at Example Dealership.'')]\<rparr>"

definition MOCK_SEO_REPORT :: SeoReport where
  "MOCK_SEO_REPORT =
     \<lparr>report_request_id = ''123e4567-e89b-12d3-a456-426614174000'',
      report_type = ''page_completion'',
      report_title = ''Service Page Completion Report'',
      summary = ''Your service page has been completed and is now live.'',
      report_url = Some ''https://example.com/reports/123.pdf'',
      metrics = Some [(''wordCount'', JInt 850), (''readabilityScore'', JInt 72)],
      report_details =
        [(''url'', JStr ''/services/oil-change''),
         (''completedDate'', JStr ''2025-06-10T14:30:00Z''),
         (''customerscout_id'', JStr ''cs-12345''),
         (''vendor_name'', JStr ''CustomerScout'')]\<rparr>"

definition MOCK_PUBLISH_NOTIFICATION :: PublishNotification where
  "MOCK_PUBLISH_NOTIFICATION =
     \<lparr>publish_request_id = ''123e4567-e89b-12d3-a456-426614174000'',
      publish_type = ''page'',
      publish_title = ''Oil Change Service Page'',
      publish_description = ''Your new service page is now live'',
      published_url = ''https://example.com/services/oil-change'',
      publish_date = ''2025-06-10T14:30:00Z'',
      publish_details =
        Some [(''wordCount'', JInt 850), (''images'', JInt 3),
              (''vendor_contact'', JStr ''support@customerscout.com'')]\<rparr>"

subsection \<open>\<^verbatim>\<open>sanitize_vendor_data\<close> on the object store\<close>

text \<open>
  Whether the caller's payload survives the call depends on which objects the code
  writes to, so here dictionaries and lists are objects in a store and values refer to
  them. An address is an index into the store; objects are never freed. Immutable
  values (strings, numbers, \<^verbatim>\<open>None\<close>) are carried in place.
\<close>

datatype pyval = VNone | VBool bool | VInt int | VFloat string | VStr string | VRef nat

datatype pyobj = ODict "(string \<times> pyval) list" | OList "pyval list"

type_synonym heap = "pyobj list"

definition heap_lookup :: "heap \<Rightarrow> nat \<Rightarrow> pyobj option" where
  "heap_lookup h a = (if a < length h then Some (h ! a) else None)"

text \<open>\<^verbatim>\<open>del d[key]\<close> and \<^verbatim>\<open>d[key] = v\<close> on the items of a dictionary: an existing key
  keeps its position, a new one goes to the end.\<close>

definition dict_delitem :: "string \<Rightarrow> (string \<times> pyval) list \<Rightarrow> (string \<times> pyval) list" where
  "dict_delitem key items = filter (\<lambda>(k, w). k \<noteq> key) items"

definition dict_setitem ::
  "string \<Rightarrow> pyval \<Rightarrow> (string \<times> pyval) list \<Rightarrow> (string \<times> pyval) list" where
  "dict_setitem key v items =
     (if key \<in> fst ` set items then map (\<lambda>(k, w). if k = key then (k, v) else (k, w)) items
      else items @ [(key, v)])"

definition heap_delitem :: "heap \<Rightarrow> nat \<Rightarrow> string \<Rightarrow> heap" where
  "heap_delitem h a key =
     (case heap_lookup h a of
        Some (ODict items) \<Rightarrow> h[a := ODict (dict_delitem key items)]
      | _ \<Rightarrow> h)"

definition heap_setitem :: "heap \<Rightarrow> nat \<Rightarrow> string \<Rightarrow> pyval \<Rightarrow> heap" where
  "heap_setitem h a key v =
     (case heap_lookup h a of
        Some (ODict items) \<Rightarrow> h[a := ODict (dict_setitem key v items)]
      | _ \<Rightarrow> h)"

text \<open>\<^verbatim>\<open>isinstance(item, dict)\<close>\<close>

definition is_dict_ref :: "heap \<Rightarrow> pyval \<Rightarrow> bool" where
  "is_dict_ref h v =
     (case v of
        VRef r \<Rightarrow> (case heap_lookup h r of Some (ODict items) \<Rightarrow> True | _ \<Rightarrow> False)
      | _ \<Rightarrow> False)"

text \<open>
  \<open>sanitize_store depth h data\<close> is the call \<^verbatim>\<open>sanitize_vendor_data(data)\<close> in store
  \<open>h\<close>, with \<open>depth\<close> nested calls left before the interpreter raises
  \<^verbatim>\<open>RecursionError\<close>; it returns the address of the result and the new store.
  \<^verbatim>\<open>data.copy()\<close> allocates a dictionary with the same items; \<open>sanitize_loop\<close> is the
  \<^verbatim>\<open>for\<close> loop over the snapshot of the items, writing to the copy at \<open>sanitized\<close>;
  \<open>sanitize_comprehension\<close> is the list comprehension. The \<open>TypeError\<close> branches stand
  for a reference to no object or to an object of the wrong kind, which no Python
  store has.
\<close>

fun sanitize_store :: "nat \<Rightarrow> heap \<Rightarrow> nat \<Rightarrow> py_exception + (nat \<times> heap)"
  and sanitize_loop ::
    "nat \<Rightarrow> heap \<Rightarrow> nat \<Rightarrow> (string \<times> pyval) list \<Rightarrow> py_exception + heap"
  and sanitize_comprehension ::
    "nat \<Rightarrow> heap \<Rightarrow> pyval list \<Rightarrow> py_exception + (pyval list \<times> heap)" where
  "sanitize_store 0 h data = Inl RecursionError"
| "sanitize_store (Suc depth) h data =
     (case heap_lookup h data of
        Some (ODict items) \<Rightarrow>
          (case sanitize_loop depth (h @ [ODict items]) (length h) items of
             Inl e \<Rightarrow> Inl e
           | Inr h' \<Rightarrow> Inr (length h, h'))
      | _ \<Rightarrow> Inl TypeError)"
| "sanitize_loop depth h sanitized [] = Inr h"
| "sanitize_loop depth h sanitized ((key, v) # rest) =
     (if has_vendor_field key
      then sanitize_loop depth (heap_delitem h sanitized key) sanitized rest
      else
        (case v of
           VStr s \<Rightarrow>
             sanitize_loop depth
               (heap_setitem h sanitized key (VStr (replace_vendor_name s))) sanitized rest
         | VRef r \<Rightarrow>
             (case heap_lookup h r of
                Some (ODict items) \<Rightarrow>
                  (case sanitize_store depth h r of
                     Inl e \<Rightarrow> Inl e
                   | Inr (r', h') \<Rightarrow>
                       sanitize_loop depth (heap_setitem h' sanitized key (VRef r'))
                         sanitized rest)
              | Some (OList xs) \<Rightarrow>
                  if list_all (is_dict_ref h) xs
                  then
                    (case sanitize_comprehension depth h xs of
                       Inl e \<Rightarrow> Inl e
                     | Inr (ys, h') \<Rightarrow>
                         sanitize_loop depth
                           (heap_setitem (h' @ [OList ys]) sanitized key (VRef (length h')))
                           sanitized rest)
                  else sanitize_loop depth h sanitized rest
              | None \<Rightarrow> Inl TypeError)
         | _ \<Rightarrow> sanitize_loop depth h sanitized rest))"
| "sanitize_comprehension depth h [] = Inr ([], h)"
| "sanitize_comprehension depth h (x # xs) =
     (case x of
        VRef r \<Rightarrow>
          (case sanitize_store depth h r of
             Inl e \<Rightarrow> Inl e
           | Inr (r', h') \<Rightarrow>
               (case sanitize_comprehension depth h' xs of
                  Inl e \<Rightarrow> Inl e
                | Inr (ys, h'') \<Rightarrow> Inr (VRef r' # ys, h'')))
      | _ \<Rightarrow> Inl TypeError)"

text \<open>
  \<open>held A h v t\<close>: in store \<open>h\<close> the value \<open>v\<close> is the payload \<open>t\<close>, read through its
  references, all of which are addresses in \<open>A\<close>; the keys of every dictionary are
  distinct. \<open>holds h v t\<close> puts no bound on the addresses. \<open>nesting t\<close> counts the
  dictionaries nested in each other along the deepest path of \<open>t\<close>.
\<close>

fun held :: "nat set \<Rightarrow> heap \<Rightarrow> pyval \<Rightarrow> json \<Rightarrow> bool"
  and held_items :: "nat set \<Rightarrow> heap \<Rightarrow> (string \<times> pyval) list \<Rightarrow> pydict \<Rightarrow> bool"
  and held_list :: "nat set \<Rightarrow> heap \<Rightarrow> pyval list \<Rightarrow> json list \<Rightarrow> bool" where
  "held A h v JNull = (v = VNone)"
| "held A h v (JBool b) = (v = VBool b)"
| "held A h v (JInt i) = (v = VInt i)"
| "held A h v (JFloat r) = (v = VFloat r)"
| "held A h v (JStr s) = (v = VStr s)"
| "held A h v (JList ts) =
     (case v of
        VRef a \<Rightarrow>
          a \<in> A \<and>
          (case heap_lookup h a of Some (OList vs) \<Rightarrow> held_list A h vs ts | _ \<Rightarrow> False)
      | _ \<Rightarrow> False)"
| "held A h v (JDict d) =
     (case v of
        VRef a \<Rightarrow>
          a \<in> A \<and>
          (case heap_lookup h a of
             Some (ODict items) \<Rightarrow> distinct (map fst items) \<and> held_items A h items d
           | _ \<Rightarrow> False)
      | _ \<Rightarrow> False)"
| "held_items A h items [] = (items = [])"
| "held_items A h items ((key, t) # d) =
     (case items of
        [] \<Rightarrow> False
      | (k, v) # rest \<Rightarrow> k = key \<and> held A h v t \<and> held_items A h rest d)"
| "held_list A h vs [] = (vs = [])"
| "held_list A h vs (t # ts) =
     (case vs of [] \<Rightarrow> False | v # rest \<Rightarrow> held A h v t \<and> held_list A h rest ts)"

definition holds :: "heap \<Rightarrow> pyval \<Rightarrow> json \<Rightarrow> bool" where
  "holds h v t = held UNIV h v t"

fun nesting :: "json \<Rightarrow> nat"
  and nesting_items :: "pydict \<Rightarrow> nat"
  and nesting_list :: "json list \<Rightarrow> nat" where
  "nesting (JDict d) = Suc (nesting_items d)"
| "nesting (JList ts) = nesting_list ts"
| "nesting JNull = 0"
| "nesting (JBool b) = 0"
| "nesting (JInt i) = 0"
| "nesting (JFloat r) = 0"
| "nesting (JStr s) = 0"
| "nesting_items [] = 0"
| "nesting_items ((key, t) # d) = max (nesting t) (nesting_items d)"
| "nesting_list [] = 0"
| "nesting_list (t # ts) = max (nesting t) (nesting_list ts)"

text \<open>
  What each of the three functions is to do, as a statement about one payload.
  \<open>new_addresses h ext\<close> are the addresses of the objects \<open>ext\<close> once they are appended
  to \<open>h\<close>. A call on a dictionary held within \<open>A\<close> returns a new object and a store
  that only adds objects, and the result is held within \<open>A\<close> and the new addresses. The
  loop, started on the copy at \<open>a\<close> whose items are those already done followed by
  those still to do, changes the object at \<open>a\<close> only, and adds objects.
\<close>

definition new_addresses :: "heap \<Rightarrow> heap \<Rightarrow> nat set" where
  "new_addresses h ext = {length h ..< length h + length ext}"

definition store_spec :: "pydict \<Rightarrow> bool" where
  "store_spec d \<longleftrightarrow>
     (\<forall>depth h data A.
        held A h (VRef data) (JDict d) \<and> A \<subseteq> {..<length h} \<and> nesting (JDict d) \<le> depth \<longrightarrow>
        (\<exists>ext. sanitize_store depth h data = Inr (length h, h @ ext)
           \<and> held (A \<union> new_addresses h ext) (h @ ext) (VRef (length h))
                (JDict (sanitize_vendor_data d))))"

definition comprehension_spec :: "json list \<Rightarrow> bool" where
  "comprehension_spec ts \<longleftrightarrow>
     (\<forall>depth h xs A.
        held_list A h xs ts \<and> list_all is_dict ts \<and> A \<subseteq> {..<length h}
          \<and> nesting_list ts \<le> depth \<longrightarrow>
        (\<exists>ys ext. sanitize_comprehension depth h xs = Inr (ys, h @ ext)
           \<and> held_list (A \<union> new_addresses h ext) (h @ ext) ys (sanitize_each ts)))"

definition loop_spec :: "pydict \<Rightarrow> bool" where
  "loop_spec d \<longleftrightarrow>
     (\<forall>depth h a done rest A.
        a < length h \<and> h ! a = ODict (done @ rest) \<and> distinct (map fst (done @ rest))
          \<and> held_items A h rest d \<and> A \<subseteq> {..<length h} \<and> a \<notin> A
          \<and> nesting_items d \<le> depth \<longrightarrow>
        (\<exists>fin ext. sanitize_loop depth h a rest = Inr (h[a := ODict (done @ fin)] @ ext)
           \<and> held_items (A \<union> new_addresses h ext) (h[a := ODict (done @ fin)] @ ext) fin
                (sanitize_vendor_data d)))"

definition value_spec :: "json \<Rightarrow> bool" where
  "value_spec t \<longleftrightarrow>
     (\<forall>d. t = JDict d \<longrightarrow> store_spec d) \<and> (\<forall>ts. t = JList ts \<longrightarrow> comprehension_spec ts)"

section \<open>Properties\<close>

subsection \<open>Signature and freshness\<close>

lemma hex_digit_mem: "hex_digit n \<in> set ''0123456789abcdef''"
  unfolding hex_digit_def by (rule nth_mem) simp

lemma hex_of_byte_mem: "set (hex_of_byte c) \<subseteq> set ''0123456789abcdef''"
  unfolding hex_of_byte_def Let_def using hex_digit_mem by (simp del: set_simps add: list.set)

lemma hexdigest_hex: "set (hexdigest mac key msg) \<subseteq> set ''0123456789abcdef''"
  unfolding hexdigest_def using hex_of_byte_mem by (auto simp del: set_simps)

lemma hexdigest_ascii: "list_all is_ascii (hexdigest mac key msg)"
proof -
  have "list_all is_ascii ''0123456789abcdef''"
    by (simp add: is_ascii_def)
  with hexdigest_hex[of mac key msg] show ?thesis
    unfolding list_all_iff by blast
qed

lemma utf8_encode_append: "utf8_encode (a @ b) = utf8_encode a @ utf8_encode b"
  by (simp add: utf8_encode_def)

lemma utf8_ok_two:
  assumes "194 \<le> b" "b \<le> 223" "128 \<le> c" "c \<le> 191"
  shows "utf8_ok (b # c # bs) = utf8_ok bs"
  using assms by (simp add: continuation_def)

lemma utf8_ok_encode_char:
  "utf8_ok (map of_char (utf8_encode_char c) @ bs) = utf8_ok bs"
proof (cases "(of_char c :: nat) < 128")
  case True
  then show ?thesis by (simp add: utf8_encode_char_def)
next
  case False
  define n where "n = (of_char c :: nat)"
  have n: "128 \<le> n" "n < 256"
    using False nat_of_char_less_256[of c] by (simp_all add: n_def)
  have d: "2 \<le> n div 64" "n div 64 \<le> 3"
    using n by arith+
  have m: "n mod 64 < 64" by simp
  have b1: "(192 + n div 64) mod 256 = 192 + n div 64" using d by simp
  have b2: "(128 + n mod 64) mod 256 = 128 + n mod 64" using m by simp
  have "map of_char (utf8_encode_char c) = [192 + n div 64, 128 + n mod 64]"
    using False b1 b2 by (simp add: utf8_encode_char_def Let_def n_def)
  moreover have "utf8_ok ((192 + n div 64) # (128 + n mod 64) # bs) = utf8_ok bs"
    by (rule utf8_ok_two) (use d m in simp_all)
  ultimately show ?thesis by simp
qed

lemma utf8_valid_encode: "utf8_valid (utf8_encode s)"
  unfolding utf8_valid_def utf8_encode_def
  by (induction s) (simp_all add: utf8_ok_encode_char)


lemma compare_digest_hexdigest:
  "list_all is_ascii sig \<Longrightarrow>
     compare_digest (hexdigest mac key msg) sig = Inr (hexdigest mac key msg = sig)"
  by (simp add: compare_digest_def hexdigest_ascii)

lemma compare_digest_non_ascii:
  "\<not> list_all is_ascii sig \<Longrightarrow> compare_digest a sig = Inl TypeError"
  by (simp add: compare_digest_def)

lemma verify_hmac_signed:
  assumes "utf8_valid raw"
  shows "verify_hmac mac secret now
           (hexdigest mac (utf8_encode secret) (signed_message ts raw)) ts raw =
         (case python_int ts of
            None \<Rightarrow> Inl (HTTPException 401 ''Invalid timestamp format'')
          | Some t \<Rightarrow>
              if \<bar>now - t\<bar> > 300 then Inl (HTTPException 401 ''Expired timestamp'')
              else Inr True)"
  using assms
  by (simp add: verify_hmac_def compare_digest_def hexdigest_ascii HTTP_401_UNAUTHORIZED_def
      split: option.split)

lemma verify_hmac_wrong_signature:
  assumes "utf8_valid raw" "list_all is_ascii sig"
    and "sig \<noteq> hexdigest mac (utf8_encode secret) (signed_message ts raw)"
  shows "verify_hmac mac secret now sig ts raw = Inl (HTTPException 401 ''Invalid signature'')"
  using assms
  by (auto simp add: verify_hmac_def compare_digest_def hexdigest_ascii HTTP_401_UNAUTHORIZED_def)

lemma verify_hmac_non_ascii_signature:
  assumes "utf8_valid raw" "\<not> list_all is_ascii sig"
  shows "verify_hmac mac secret now sig ts raw = Inl (Unhandled TypeError)"
  using assms by (simp add: verify_hmac_def compare_digest_def)

lemma verify_hmac_undecodable_body:
  "\<not> utf8_valid raw \<Longrightarrow> verify_hmac mac secret now sig ts raw = Inl (Unhandled UnicodeDecodeError)"
  by (simp add: verify_hmac_def)

lemma verify_hmac_ok_iff:
  "verify_hmac mac secret now sig ts raw = Inr b \<longleftrightarrow>
     b \<and> utf8_valid raw \<and> sig = hexdigest mac (utf8_encode secret) (signed_message ts raw)
       \<and> (\<exists>t. python_int ts = Some t \<and> \<bar>now - t\<bar> \<le> 300)"
  by (auto simp add: verify_hmac_def compare_digest_def hexdigest_ascii
      split: if_splits option.splits sum.splits bool.splits)

text \<open>The signature header of an outbound request, as the inbound check would read it.\<close>

lemma outbound_signature_verifies:
  "map_of (headers (vendor_request mac enc cfg now endpoint data)) ''X-Signature'' =
     Some (hexdigest mac (utf8_encode (VENDOR_HMAC_SECRET cfg))
            (signed_message (str_int now) (utf8_encode (json_dumps (JDict data)))))"
  by (simp add: vendor_request_def Let_def signed_message_def utf8_encode_append utf8_encode_def utf8_encode_char_def)

lemma python_int_sample: "python_int ''1700000000'' = Some 1700000000"
  by code_simp

lemma python_int_bad: "python_int ''yesterday'' = None"
  by code_simp

text \<open>\<^verbatim>\<open>int\<close> does not skip a separator such as \<^verbatim>\<open>\x1c\<close>, it does skip a no-break
  space, and it takes no more digits than the limit.\<close>

lemma python_int_separator: "python_int (CHR 0x1C # ''1700000000'') = None"
  by code_simp

lemma python_int_no_break_space: "python_int (CHR 0xA0 # ''1700000000'') = Some 1700000000"
  by code_simp

lemma int_space_not_digit: "int_space c \<Longrightarrow> \<not> is_digit c"
  by (auto simp: int_space_def is_digit_def Let_def)

lemma filter_digit_dropWhile: "filter is_digit (dropWhile int_space s) = filter is_digit s"
  by (induction s) (simp_all add: int_space_not_digit)

lemma filter_digit_int_strip: "filter is_digit (int_strip s) = filter is_digit s"
proof -
  have "filter is_digit (int_strip s)
          = rev (filter is_digit (dropWhile int_space (rev (dropWhile int_space s))))"
    by (simp add: int_strip_def rev_filter)
  also have "\<dots> = rev (filter is_digit (rev (dropWhile int_space s)))"
    by (simp only: filter_digit_dropWhile)
  also have "\<dots> = filter is_digit (dropWhile int_space s)"
    by (simp add: rev_filter[symmetric])
  finally show ?thesis
    by (simp only: filter_digit_dropWhile)
qed

lemma python_int_digit_limit:
  assumes "python_int s = Some t"
  shows "int (length (filter is_digit s)) \<le> int_max_str_digits"
proof (cases "int_strip s")
  case Nil
  with assms show ?thesis by (simp add: python_int_def)
next
  case (Cons c cs)
  let ?digits = "if c = CHR ''-'' \<or> c = CHR ''+'' then cs else c # cs"
  have "\<not> int (length (filter is_digit ?digits)) > int_max_str_digits"
    using assms Cons by (auto simp: python_int_def Let_def split: if_splits)
  moreover have "filter is_digit ?digits = filter is_digit (c # cs)"
    by (auto simp: is_digit_def)
  ultimately show ?thesis
    using filter_digit_int_strip[of s] Cons by simp
qed

lemma utf8_valid_braces: "utf8_valid ''{}''"
  by code_simp

text \<open>
  C1. A signature header that is wrong is meant to be answered 401. A wrong signature
  with a character outside ASCII makes \<^verbatim>\<open>hmac.compare_digest\<close> raise \<^verbatim>\<open>TypeError\<close>,
  which no handler of the check catches: the request ends in the general exception
  handler with status 500, here for the header value \<^verbatim>\<open>\xe9\<close>.
\<close>

theorem C1_non_ascii_signature_unhandled:
  "verify_hmac mac ''dev-secret-change-in-production'' 1700000000 [CHR 0xE9] ''1700000000'' ''{}''
     = Inl (Unhandled TypeError)
   \<and> status_code (Unhandled TypeError) = 500"
  by (simp add: verify_hmac_non_ascii_signature utf8_valid_braces is_ascii_def)

text \<open>
  C4. For a message that carries the right signature: a timestamp more than 300 seconds
  away from the current time is rejected as expired, a timestamp at most 300 seconds
  away (300 included) is accepted, and a timestamp that \<^verbatim>\<open>int\<close> cannot parse is
  rejected as malformed; both rejections carry status 401.
\<close>

theorem C4_freshness_window:
  assumes "utf8_valid raw"
  shows "(\<forall>t. python_int ts = Some t \<and> \<bar>now - t\<bar> > 300 \<longrightarrow>
            verify_hmac mac secret now
              (hexdigest mac (utf8_encode secret) (signed_message ts raw)) ts raw
            = Inl (HTTPException 401 ''Expired timestamp''))
       \<and> (\<forall>t. python_int ts = Some t \<and> \<bar>now - t\<bar> \<le> 300 \<longrightarrow>
            verify_hmac mac secret now
              (hexdigest mac (utf8_encode secret) (signed_message ts raw)) ts raw
            = Inr True)
       \<and> (python_int ts = None \<longrightarrow>
            verify_hmac mac secret now
              (hexdigest mac (utf8_encode secret) (signed_message ts raw)) ts raw
            = Inl (HTTPException 401 ''Invalid timestamp format''))"
  using verify_hmac_signed[OF assms, of mac secret now ts] by auto

theorem C4_witness:
  "\<forall>mac.
     verify_hmac mac ''s3cret'' 1700000300
       (hexdigest mac (utf8_encode ''s3cret'') (signed_message ''1700000000'' ''{}''))
       ''1700000000'' ''{}'' = Inr True
   \<and> verify_hmac mac ''s3cret'' 1700000301
       (hexdigest mac (utf8_encode ''s3cret'') (signed_message ''1700000000'' ''{}''))
       ''1700000000'' ''{}'' = Inl (HTTPException 401 ''Expired timestamp'')
   \<and> verify_hmac mac ''s3cret'' 1699999699
       (hexdigest mac (utf8_encode ''s3cret'') (signed_message ''1700000000'' ''{}''))
       ''1700000000'' ''{}'' = Inl (HTTPException 401 ''Expired timestamp'')
   \<and> verify_hmac mac ''s3cret'' 1700000000
       (hexdigest mac (utf8_encode ''s3cret'') (signed_message ''yesterday'' ''{}''))
       ''yesterday'' ''{}'' = Inl (HTTPException 401 ''Invalid timestamp format'')
   \<and> verify_hmac mac ''s3cret'' 1700000000
       (hexdigest mac (utf8_encode ''s3cret'')
          (signed_message (CHR 0x1C # ''1700000000'') ''{}''))
       (CHR 0x1C # ''1700000000'') ''{}'' = Inl (HTTPException 401 ''Invalid timestamp format'')"
  using C4_freshness_window[OF utf8_valid_braces, of "''1700000000''" 1700000300]
        C4_freshness_window[OF utf8_valid_braces, of "''1700000000''" 1700000301]
        C4_freshness_window[OF utf8_valid_braces, of "''1700000000''" 1699999699]
        C4_freshness_window[OF utf8_valid_braces, of "''yesterday''" 1700000000]
        C4_freshness_window[OF utf8_valid_braces, of "CHR 0x1C # ''1700000000''" 1700000000]
  by (simp add: python_int_sample python_int_bad python_int_separator)


subsection \<open>Redaction: idempotence and what passes through\<close>

lemma prefix_replace_scan:
  "new \<noteq> [] \<Longrightarrow> hd new \<notin> set p \<Longrightarrow> prefix p (replace_scan old new s) \<Longrightarrow> prefix p s"
proof (induction old new s arbitrary: p rule: replace_scan.induct)
  case (1 old new)
  then show ?case by simp
next
  case (2 old new c cs)
  show ?case
  proof (cases p)
    case Nil
    then show ?thesis by simp
  next
    case (Cons q qs)
    show ?thesis
    proof (cases "prefix old (c # cs)")
      case True
      with "2.prems" Cons have False
        by (cases new) auto
      then show ?thesis ..
    next
      case False
      with "2.prems" Cons have "q = c" "prefix qs (replace_scan old new cs)" "hd new \<notin> set qs"
        by auto
      with "2.IH"(2)[OF False "2.prems"(1), of qs] Cons show ?thesis by simp
    qed
  qed
qed

lemma contains_append_skip:
  "old \<noteq> [] \<Longrightarrow> hd old \<notin> set new \<Longrightarrow> contains old (new @ rest) = contains old rest"
  by (induction new) (auto simp: prefix_Cons neq_Nil_conv)

lemma replace_scan_free:
  assumes "old \<noteq> []" "new \<noteq> []" "hd old \<notin> set new" "hd new \<notin> set old"
  shows "\<not> contains old (replace_scan old new s)"
  using assms
proof (induction old new s rule: replace_scan.induct)
  case (1 old new)
  then show ?case by simp
next
  case (2 old new c cs)
  show ?case
  proof (cases "prefix old (c # cs)")
    case True
    with 2 show ?thesis by (simp add: contains_append_skip)
  next
    case False
    have "\<not> prefix old (replace_scan old new (c # cs))"
      using prefix_replace_scan[OF "2.prems"(2) "2.prems"(4)] False by blast
    with False 2 show ?thesis by simp
  qed
qed

lemma replace_scan_id: "\<not> contains old s \<Longrightarrow> replace_scan old new s = s"
  by (induction old new s rule: replace_scan.induct) auto

lemma replace_vendor_name_free: "\<not> contains ''CustomerScout'' (replace_vendor_name s)"
  unfolding replace_vendor_name_def str_replace_def
  using replace_scan_free[of "''CustomerScout''" "''Rylie SEO''" s] by simp

lemma replace_vendor_name_idem:
  "replace_vendor_name (replace_vendor_name s) = replace_vendor_name s"
  using replace_vendor_name_free[of s]
  by (simp add: replace_vendor_name_def str_replace_def replace_scan_id)

lemma is_dict_sanitize_each: "list_all is_dict (sanitize_each xs) = list_all is_dict xs"
proof (induction xs)
  case Nil
  then show ?case by simp
next
  case (Cons x xs)
  then show ?case by (cases x) simp_all
qed

lemma sanitize_idem:
  "sanitize_vendor_data (sanitize_vendor_data d) = sanitize_vendor_data d"
  "sanitize_value (sanitize_value v) = sanitize_value v"
  "sanitize_each (sanitize_each xs) = sanitize_each xs"
  by (induction d and v and xs rule: sanitize_vendor_data_sanitize_value_sanitize_each.induct)
     (simp_all add: replace_vendor_name_idem is_dict_sanitize_each)

lemma sanitize_member:
  "(key, v) \<in> set d \<Longrightarrow> \<not> has_vendor_field key
     \<Longrightarrow> (key, sanitize_value v) \<in> set (sanitize_vendor_data d)"
  by (induction d) auto

lemma sanitize_each_member:
  "JDict d \<in> set xs \<Longrightarrow> JDict (sanitize_vendor_data d) \<in> set (sanitize_each xs)"
proof (induction xs)
  case Nil
  then show ?case by simp
next
  case (Cons x xs)
  then show ?case by (cases x) auto
qed

lemma visits_sanitize:
  "visits p d \<Longrightarrow> visits (sanitize_vendor_data p) (sanitize_vendor_data d)"
proof (induction rule: visits.induct)
  case (visits_self p)
  show ?case by (rule visits.visits_self)
next
  case (visits_dict key d p e)
  from sanitize_member[OF visits_dict(1,2)]
  have "(key, JDict (sanitize_vendor_data d)) \<in> set (sanitize_vendor_data p)" by simp
  then show ?case using visits_dict(2) visits_dict.IH by (rule visits.visits_dict)
next
  case (visits_list key xs p d e)
  from sanitize_member[OF visits_list(1,2)] visits_list(3)
  have "(key, JList (sanitize_each xs)) \<in> set (sanitize_vendor_data p)" by simp
  moreover have "list_all is_dict (sanitize_each xs)"
    using visits_list(3) by (simp add: is_dict_sanitize_each)
  moreover have "JDict (sanitize_vendor_data d) \<in> set (sanitize_each xs)"
    using visits_list(4) by (rule sanitize_each_member)
  ultimately show ?case using visits_list(2) visits_list.IH
    by (blast intro: visits.visits_list)
qed

lemma sanitize_example:
  "sanitize_vendor_data
     [(''vendor_id'', JStr ''v1''),
      (''description'', JStr ''Built by CustomerScout''),
      (''nested'', JDict [(''cs_reference'', JStr ''R1'')]),
      (''items'', JList [JDict [(''vendor_item'', JStr ''x''),
                                (''name'', JStr ''CustomerScout Widget'')]])]
   = [(''description'', JStr ''Built by Rylie SEO''),
      (''nested'', JDict []),
      (''items'', JList [JDict [(''vendor_item'', JStr ''x''),
                                (''name'', JStr ''Rylie SEO Widget'')]])]"
  by code_simp

text \<open>The key \<^verbatim>\<open>vendor_item\<close> contains the marker \<^verbatim>\<open>vendor\<close> and none of the fields
  that \<^verbatim>\<open>sanitize_vendor_data\<close> looks for.\<close>

lemma vendor_item_has_identity_marker: "has_identity_marker ''vendor_item''"
  by code_simp

lemma vendor_item_no_vendor_field: "\<not> has_vendor_field ''vendor_item''"
  by code_simp

text \<open>Every field that the function looks for contains one of the markers, so what it
  drops is to be dropped; the markers ask for more.\<close>

lemma vendor_fields_marked: "list_all has_identity_marker vendor_fields"
  by code_simp

text \<open>
  C7. Redaction is to leave no key that contains a marker of vendor identity. The
  function drops a key only when it contains one of eight listed fields, and
  \<^verbatim>\<open>vendor_item\<close> contains none of them: on the data of the repository's test
  \<^verbatim>\<open>test_sanitize_vendor_data\<close>, which asserts that \<^verbatim>\<open>vendor_item\<close> is gone from the
  first element of \<^verbatim>\<open>list_data\<close>, the output still has that key in both elements, and
  so is not free of markers. The string values are rewritten and the other marked keys
  are dropped, as the test expects.
\<close>

theorem C7_vendor_item_key_survives:
  "sanitize_vendor_data
     [(''title'', JStr ''Test Report''),
      (''vendor_id'', JStr ''v-12345''),
      (''customerscout_id'', JStr ''cs-12345''),
      (''vendor_name'', JStr ''CustomerScout''),
      (''description'', JStr ''This report was created by CustomerScout''),
      (''nested'', JDict [(''vendor_contact'', JStr ''support@customerscout.com''),
                          (''cs_reference'', JStr ''REF-12345'')]),
      (''list_data'', JList [JDict [(''vendor_item'', JStr ''item1''),
                                    (''name'', JStr ''CustomerScout Item'')],
                             JDict [(''vendor_item'', JStr ''item2''),
                                    (''name'', JStr ''Another CustomerScout Item'')]])]
   = [(''title'', JStr ''Test Report''),
      (''description'', JStr ''This report was created by Rylie SEO''),
      (''nested'', JDict []),
      (''list_data'', JList [JDict [(''vendor_item'', JStr ''item1''),
                                    (''name'', JStr ''Rylie SEO Item'')],
                             JDict [(''vendor_item'', JStr ''item2''),
                                    (''name'', JStr ''Another Rylie SEO Item'')]])]
   \<and> \<not> clean_dict
     [(''title'', JStr ''Test Report''),
      (''description'', JStr ''This report was created by Rylie SEO''),
      (''nested'', JDict []),
      (''list_data'', JList [JDict [(''vendor_item'', JStr ''item1''),
                                    (''name'', JStr ''Rylie SEO Item'')],
                             JDict [(''vendor_item'', JStr ''item2''),
                                    (''name'', JStr ''Another Rylie SEO Item'')]])]"
  by code_simp

text \<open>The same on the example of the specification.\<close>

lemma sanitize_example_not_clean:
  "\<not> clean_dict
     (sanitize_vendor_data
        [(''vendor_id'', JStr ''v1''),
         (''description'', JStr ''Built by CustomerScout''),
         (''nested'', JDict [(''cs_reference'', JStr ''R1'')]),
         (''items'', JList [JDict [(''vendor_item'', JStr ''x''),
                                   (''name'', JStr ''CustomerScout Widget'')]])])"
  unfolding sanitize_example by code_simp

lemma has_vendor_field_vendor_id: "has_vendor_field ''vendor_id''"
  by code_simp

lemma no_vendor_field_tags: "\<not> has_vendor_field ''tags''"
  by code_simp

lemma no_vendor_field_items: "\<not> has_vendor_field ''items''"
  by code_simp

text \<open>
  C10, as stated, fails for a list under a key with a vendor field: the item is deleted
  with its list, mixed or not.
\<close>

theorem C10_counterexample:
  "\<not> list_all is_dict [JStr ''CustomerScout'', JDict [(''name'', JStr ''CustomerScout'')]]
   \<and> sanitize_vendor_data
       [(''vendor_id'', JList [JStr ''CustomerScout'', JDict [(''name'', JStr ''CustomerScout'')]])]
     = []"
  by (simp add: has_vendor_field_vendor_id)

text \<open>
  C10, amended. A list with an element that is not a dictionary, under a key without
  vendor field in a dictionary that the traversal reaches, is left as it is: the
  corresponding dictionary of the output is reached in the output and holds the same
  key with the same list, whatever vendor data the list contains.
\<close>

theorem C10_mixed_list_unchanged:
  assumes "visits p d" and "(key, JList xs) \<in> set d"
    and "\<not> has_vendor_field key" and "\<not> list_all is_dict xs"
  shows "sanitize_value (JList xs) = JList xs
       \<and> visits (sanitize_vendor_data p) (sanitize_vendor_data d)
       \<and> (key, JList xs) \<in> set (sanitize_vendor_data d)"
proof -
  from sanitize_member[OF assms(2,3)] assms(4)
  have "(key, JList xs) \<in> set (sanitize_vendor_data d)" by simp
  with visits_sanitize[OF assms(1)] assms(4) show ?thesis by simp
qed

theorem C10_witness:
  "sanitize_vendor_data
     [(''items'', JList [JDict [(''tags'', JList [JStr ''CustomerScout'',
                                                  JDict [(''vendor_id'', JStr ''v1'')]])]])]
   = [(''items'', JList [JDict [(''tags'', JList [JStr ''CustomerScout'',
                                                  JDict [(''vendor_id'', JStr ''v1'')]])]])]
   \<and> (''tags'', JList [JStr ''CustomerScout'', JDict [(''vendor_id'', JStr ''v1'')]])
       \<in> set (sanitize_vendor_data
                [(''tags'', JList [JStr ''CustomerScout'', JDict [(''vendor_id'', JStr ''v1'')]])])"
proof -
  let ?xs = "[JStr ''CustomerScout'', JDict [(''vendor_id'', JStr ''v1'')]]"
  let ?d = "[(''tags'', JList ?xs)]"
  let ?p = "[(''items'', JList [JDict ?d])]"
  have v: "visits ?p ?d"
    by (rule visits_list[where key = "''items''" and xs = "[JDict ?d]" and d = ?d])
       (simp_all add: no_vendor_field_items visits_self)
  have m: "(''tags'', JList ?xs) \<in> set ?d" by simp
  have n: "\<not> list_all is_dict ?xs" by simp
  from C10_mixed_list_unchanged[OF v m no_vendor_field_tags n]
  show ?thesis by (simp add: no_vendor_field_items no_vendor_field_tags)
qed

subsection \<open>The allowlist\<close>

lemma in_allowed_networks_iff:
  "in_allowed_networks ip nets \<longleftrightarrow> (\<exists>net \<in> set nets. in_network ip net)"
  by (induction nets) auto

lemma ip_10_0_0_5: "IPv4Address ''10.0.0.5'' = Some 0x0A000005"
  by (simp add: IPv4Address_def parse_octet_def is_digit_def digit_value_def)

lemma ip_192_168_1_1: "IPv4Address ''192.168.1.1'' = Some 0xC0A80101"
  by (simp add: IPv4Address_def parse_octet_def is_digit_def digit_value_def)

lemma ip_v6_unparsed: "IPv4Address ''2001:db8::1'' = None"
  by (simp add: IPv4Address_def parse_octet_def is_digit_def digit_value_def)

lemma in_10_8: "in_network 0x0A000005 \<lparr>network_address = 0x0A000000, prefixlen = 8\<rparr>"
  by (simp add: in_network_def netmask_def mask_eq_exp_minus_1)

lemma not_in_10_8: "\<not> in_network 0xC0A80101 \<lparr>network_address = 0x0A000000, prefixlen = 8\<rparr>"
  by (simp add: in_network_def netmask_def mask_eq_exp_minus_1)

text \<open>
  C5. The two loopback addresses are allowed whatever the allowlist holds. Any other
  peer address is allowed exactly when it parses as an IPv4 address that lies in one of
  the configured networks; an address that does not parse is denied, and so is one that
  lies in no network, both with status 403.
\<close>

theorem C5_ip_allowlist:
  "verify_ip_allowlist nets ''127.0.0.1'' = Inr True
   \<and> verify_ip_allowlist nets ''::1'' = Inr True
   \<and> (ip \<noteq> ''127.0.0.1'' \<and> ip \<noteq> ''::1'' \<longrightarrow>
        (verify_ip_allowlist nets ip = Inr True \<longleftrightarrow>
           (\<exists>a. IPv4Address ip = Some a \<and> (\<exists>net \<in> set nets. in_network a net)))
        \<and> (IPv4Address ip = None \<longrightarrow>
             verify_ip_allowlist nets ip = Inl (HTTPException 403 ''Invalid IP format''))
        \<and> (\<forall>a. IPv4Address ip = Some a \<and> \<not> (\<exists>net \<in> set nets. in_network a net) \<longrightarrow>
             verify_ip_allowlist nets ip = Inl (HTTPException 403 ''IP not in allowlist'')))"
  by (auto simp add: verify_ip_allowlist_def in_allowed_networks_iff HTTP_403_FORBIDDEN_def
      split: option.splits)

theorem C5_witness:
  "verify_ip_allowlist [] ''127.0.0.1'' = Inr True
   \<and> verify_ip_allowlist [] ''::1'' = Inr True
   \<and> verify_ip_allowlist [\<lparr>network_address = 0x0A000000, prefixlen = 8\<rparr>] ''10.0.0.5''
       = Inr True
   \<and> verify_ip_allowlist [\<lparr>network_address = 0x0A000000, prefixlen = 8\<rparr>] ''192.168.1.1''
       = Inl (HTTPException 403 ''IP not in allowlist'')
   \<and> verify_ip_allowlist [\<lparr>network_address = 0x0A000000, prefixlen = 8\<rparr>] ''2001:db8::1''
       = Inl (HTTPException 403 ''Invalid IP format'')"
  using C5_ip_allowlist[of "[]" "''10.0.0.5''"]
        C5_ip_allowlist[of "[\<lparr>network_address = 0x0A000000, prefixlen = 8\<rparr>]" "''10.0.0.5''"]
        C5_ip_allowlist[of "[\<lparr>network_address = 0x0A000000, prefixlen = 8\<rparr>]" "''192.168.1.1''"]
        C5_ip_allowlist[of "[\<lparr>network_address = 0x0A000000, prefixlen = 8\<rparr>]" "''2001:db8::1''"]
  by (simp add: ip_10_0_0_5 ip_192_168_1_1 ip_v6_unparsed in_10_8 not_in_10_8)

subsection \<open>Tenant binding\<close>

lemma verify_internal_jwt_cases:
  "verify_internal_jwt jwt_decode authorization =
     (case jwt_decode (bearer_token authorization) of
        Inl e \<Rightarrow> Inl (HTTPException 401 (''Invalid token: '' @ e))
      | Inr claims \<Rightarrow>
          if map_of claims ''sandbox_id'' = None
          then Inl (HTTPException 401 ''Invalid token: missing sandbox_id'')
          else Inr claims)"
  by (simp add: verify_internal_jwt_def HTTP_401_UNAUTHORIZED_def split: sum.split)

text \<open>
  C6. A task submitted with a token that decodes to a claim set bound to one tenant,
  for a body that names another tenant, is rejected with 403 and nothing is logged or
  forwarded. The token check fails, with 401, exactly for a token that does not decode
  or whose claim set has no \<^verbatim>\<open>sandbox_id\<close>.
\<close>

theorem C6_tenant_mismatch_forbidden:
  "(jwt_decode (bearer_token authorization) = Inr claims
      \<and> map_of claims ''sandbox_id'' = Some t1 \<and> t1 \<noteq> JStr (sandbox_id task) \<longrightarrow>
      submit_seo_task mac enc cfg jwt_decode now vendor new_id session authorization (Some task)
        = (Inl (HTTPException 403 ''Sandbox ID mismatch''), session))
   \<and> (\<forall>e. verify_internal_jwt jwt_decode authorization = Inl e \<longrightarrow>
          status_code e = 401
          \<and> ((\<exists>msg. jwt_decode (bearer_token authorization) = Inl msg)
              \<or> (\<exists>claims. jwt_decode (bearer_token authorization) = Inr claims
                    \<and> map_of claims ''sandbox_id'' = None)))
   \<and> (\<forall>claims t. jwt_decode (bearer_token authorization) = Inr claims
          \<and> map_of claims ''sandbox_id'' = Some t \<longrightarrow>
          verify_internal_jwt jwt_decode authorization = Inr claims)"
  by (auto simp add: submit_seo_task_def verify_internal_jwt_cases HTTP_403_FORBIDDEN_def
      split: sum.splits if_splits)

theorem C6_witness:
  "\<forall>mac enc vendor.
     submit_seo_task mac enc default_settings
       (\<lambda>token. if token = ''token-of-T1''
                 then Inr [(''sub'', JStr ''123''), (''sandbox_id'', JStr ''T1'')]
                 else Inl ''Not enough segments'')
       1700000000 vendor ''id-1'' [] ''Bearer token-of-T1''
       (Some (MOCK_SEO_TASK\<lparr>sandbox_id := ''T2''\<rparr>))
     = (Inl (HTTPException 403 ''Sandbox ID mismatch''), [])"
proof (intro allI)
  fix mac :: mac_fn and enc :: "json \<Rightarrow> string" and vendor :: "http_request \<Rightarrow> vendor_outcome"
  let ?dec = "\<lambda>token. if token = ''token-of-T1''
                 then Inr [(''sub'', JStr ''123''), (''sandbox_id'', JStr ''T1'')]
                 else (Inl ''Not enough segments'' :: string + pydict)"
  have tok: "bearer_token ''Bearer token-of-T1'' = ''token-of-T1''"
    by (simp add: bearer_token_def)
  from C6_tenant_mismatch_forbidden
    [of ?dec "''Bearer token-of-T1''" "[(''sub'', JStr ''123''), (''sandbox_id'', JStr ''T1'')]"
        "JStr ''T1''" "MOCK_SEO_TASK\<lparr>sandbox_id := ''T2''\<rparr>" mac enc default_settings
        1700000000 vendor "''id-1''" "[]"]
  show "submit_seo_task mac enc default_settings ?dec 1700000000 vendor ''id-1'' []
          ''Bearer token-of-T1'' (Some (MOCK_SEO_TASK\<lparr>sandbox_id := ''T2''\<rparr>))
        = (Inl (HTTPException 403 ''Sandbox ID mismatch''), [])"
    by (simp add: tok)
qed

subsection \<open>The outbound signature\<close>

lemma vendor_request_signature:
  "map_of (headers (vendor_request mac enc cfg now endpoint data)) ''X-Signature'' =
     Some (hexdigest mac (utf8_encode (VENDOR_HMAC_SECRET cfg))
            (utf8_encode (str_int now @ ''.'' @ json_dumps (JDict data))))"
  by (simp add: vendor_request_def Let_def)

lemma vendor_request_content:
  "content (vendor_request mac enc cfg now endpoint data) = enc (JDict data)"
  by (simp add: vendor_request_def Let_def)

lemma mock_task_dumps:
  \<open>json_dumps (JDict (task_dict MOCK_SEO_TASK)) =
     ''{"request_id": "123e4567-e89b-12d3-a456-426614174000", "sandbox_id": "123e45''
     @ ''67-e89b-12d3-a456-426614174001", "task_type": "page", "title": "New Service ''
     @ ''Page", "description": "Create a new service page for our dealership", "prior''
     @ ''ity": "high", "deadline": "2025-06-15", "details": {"url": "/services/oil-ch''
     @ ''ange", "seoTitle": "Oil Change Service | Example Dealership", "metaDescripti''
     @ ''on": "Professional oil change service at Example Dealership."}}''\<close>
  by (simp add: json_dumps_def task_dict_def MOCK_SEO_TASK_def opt_str_def
      encode_basestring_def escape_char_def)

lemma mock_task_compact:
  \<open>encode_json_compact (JDict (task_dict MOCK_SEO_TASK)) =
     ''{"request_id":"123e4567-e89b-12d3-a456-426614174000","sandbox_id":"123e4567-''
     @ ''e89b-12d3-a456-426614174001","task_type":"page","title":"New Service Page","''
     @ ''description":"Create a new service page for our dealership","priority":"high''
     @ ''","deadline":"2025-06-15","details":{"url":"/services/oil-change","seoTitle"''
     @ '':"Oil Change Service | Example Dealership","metaDescription":"Professional o''
     @ ''il change service at Example Dealership."}}''\<close>
  by (simp add: encode_json_compact_def task_dict_def MOCK_SEO_TASK_def opt_str_def
      encode_basestring_def escape_char_def utf8_encode_def utf8_encode_char_def)

lemma str_int_sample: "str_int 1700000000 = ''1700000000''"
  by (simp add: str_int_def digit_char_def)

text \<open>
  C9. The outbound signature covers \<^verbatim>\<open>json.dumps(data)\<close> with its default separators;
  the body is what the client makes of \<^verbatim>\<open>data\<close>. With a client that encodes compactly
  the signed text and the body differ, here for the task of the test suite at time
  1700000000: the signed text begins \<^verbatim>\<open>{"request_id": "\<close>, the body
  \<^verbatim>\<open>{"request_id":"1\<close>.
\<close>

theorem C9_signed_text_is_not_the_body:
  \<open>map_of (headers (vendor_request mac encode_json_compact default_settings 1700000000
             ''tasks'' (task_dict MOCK_SEO_TASK))) ''X-Signature''
     = Some (hexdigest mac (utf8_encode ''dev-secret-change-in-production'')
              (utf8_encode (''1700000000.'' @ json_dumps (JDict (task_dict MOCK_SEO_TASK)))))
   \<and> content (vendor_request mac encode_json_compact default_settings 1700000000
             ''tasks'' (task_dict MOCK_SEO_TASK))
     = encode_json_compact (JDict (task_dict MOCK_SEO_TASK))
   \<and> take 16 (json_dumps (JDict (task_dict MOCK_SEO_TASK))) = ''{"request_id": "''
   \<and> take 16 (encode_json_compact (JDict (task_dict MOCK_SEO_TASK))) = ''{"request_id":"1''
   \<and> utf8_encode (json_dumps (JDict (task_dict MOCK_SEO_TASK)))
       \<noteq> encode_json_compact (JDict (task_dict MOCK_SEO_TASK))\<close>
proof -
  have a: \<open>take 16 (json_dumps (JDict (task_dict MOCK_SEO_TASK))) = ''{"request_id": "''\<close>
    unfolding mock_task_dumps by simp
  have b: \<open>take 16 (encode_json_compact (JDict (task_dict MOCK_SEO_TASK))) = ''{"request_id":"1''\<close>
    unfolding mock_task_compact by simp
  have e: "utf8_encode (json_dumps (JDict (task_dict MOCK_SEO_TASK)))
          = json_dumps (JDict (task_dict MOCK_SEO_TASK))"
    unfolding mock_task_dumps by (simp add: utf8_encode_def utf8_encode_char_def)
  have "json_dumps (JDict (task_dict MOCK_SEO_TASK))
          \<noteq> encode_json_compact (JDict (task_dict MOCK_SEO_TASK))"
    unfolding mock_task_dumps mock_task_compact by simp
  with e have c: "utf8_encode (json_dumps (JDict (task_dict MOCK_SEO_TASK)))
       \<noteq> encode_json_compact (JDict (task_dict MOCK_SEO_TASK))"
    by simp
  show ?thesis
    using a b c
    by (simp add: vendor_request_signature vendor_request_content str_int_sample
        default_settings_def)
qed

subsection \<open>The inbound endpoints\<close>

lemma verify_hmac_failure_status:
  "verify_hmac mac secret now sig ts raw = Inl e \<Longrightarrow> status_code e = 401 \<or> status_code e = 500"
  by (auto simp add: verify_hmac_def compare_digest_def HTTP_401_UNAUTHORIZED_def Let_def
      split: if_splits option.splits sum.splits bool.splits)

lemma verify_hmac_returns_True:
  "verify_hmac mac secret now sig ts raw = Inr b \<Longrightarrow> b"
  by (simp add: verify_hmac_ok_iff)

lemma vendor_dependencies_hmac_failure:
  assumes "x_vendor_signature req = Some sig" "x_vendor_timestamp req = Some ts"
    and "verify_hmac mac (VENDOR_HMAC_SECRET cfg) now sig ts (body req) = Inl e"
  shows "vendor_dependencies mac cfg now req = Inl e"
  using assms by (simp add: vendor_dependencies_def)

lemma vendor_dependencies_pass:
  assumes "x_vendor_signature req = Some sig" "x_vendor_timestamp req = Some ts"
    and "verify_hmac mac (VENDOR_HMAC_SECRET cfg) now sig ts (body req) = Inr True"
    and "verify_ip_allowlist (ALLOWED_IP_NETWORKS cfg) (client_host req) = Inr True"
  shows "vendor_dependencies mac cfg now req = Inr ()"
  using assms by (simp add: vendor_dependencies_def)

lemma vendor_dependencies_forbidden:
  assumes "vendor_dependencies mac cfg now req = Inl f" "status_code f = 403"
  shows "verify_ip_allowlist (ALLOWED_IP_NETWORKS cfg) (client_host req) = Inl f
       \<and> (x_vendor_signature req = None \<or> x_vendor_timestamp req = None
           \<or> (\<exists>sig ts. x_vendor_signature req = Some sig \<and> x_vendor_timestamp req = Some ts
                 \<and> verify_hmac mac (VENDOR_HMAC_SECRET cfg) now sig ts (body req) = Inr True))"
proof (cases "x_vendor_signature req")
  case None
  with assms show ?thesis
    by (auto simp add: vendor_dependencies_def split: sum.splits)
next
  case sig: (Some sig)
  show ?thesis
  proof (cases "x_vendor_timestamp req")
    case None
    with assms sig show ?thesis
      by (auto simp add: vendor_dependencies_def split: sum.splits)
  next
    case ts: (Some ts)
    show ?thesis
    proof (cases "verify_hmac mac (VENDOR_HMAC_SECRET cfg) now sig ts (body req)")
      case (Inl e)
      with assms sig ts have "f = e" by (simp add: vendor_dependencies_def)
      with verify_hmac_failure_status[OF Inl] assms(2) show ?thesis by simp
    next
      case (Inr b)
      with verify_hmac_returns_True[OF Inr] have "verify_hmac mac (VENDOR_HMAC_SECRET cfg) now sig ts (body req) = Inr True"
        by simp
      with assms sig ts show ?thesis
        by (auto simp add: vendor_dependencies_def split: sum.splits)
    qed
  qed
qed

lemma endpoint_failure_of_dependencies:
  assumes "vendor_dependencies mac cfg now req = Inl e"
  shows "receive_seo_report mac cfg now new_id session req report = (Inl e, session)"
    and "receive_publish_notification mac cfg now new_id session req notification = (Inl e, session)"
    and "receive_vendor_file mac cfg now new_id session req form = (Inl e, session)"
  using assms
  by (simp_all add: receive_seo_report_def receive_publish_notification_def
      receive_vendor_file_def)

lemma endpoint_forbidden_from_dependencies:
  assumes "fst (receive_seo_report mac cfg now new_id session req report) = Inl f
         \<or> fst (receive_publish_notification mac cfg now new_id session req notification) = Inl f
         \<or> fst (receive_vendor_file mac cfg now new_id session req form) = Inl f"
    and "status_code f = 403"
  shows "vendor_dependencies mac cfg now req = Inl f"
  using assms
  by (auto simp add: receive_seo_report_def receive_publish_notification_def
      receive_vendor_file_def log_communication_def Let_def
      split: sum.splits option.splits prod.splits)

lemma receive_seo_report_accepts:
  assumes "x_vendor_signature req = Some sig" "x_vendor_timestamp req = Some ts"
    and "verify_hmac mac (VENDOR_HMAC_SECRET cfg) now sig ts (body req) = Inr True"
    and "verify_ip_allowlist (ALLOWED_IP_NETWORKS cfg) (client_host req) = Inr True"
  shows "receive_seo_report mac cfg now new_id session req (Some r) =
           (Inr [(''success'', JBool True), (''message'', JStr ''Report received successfully'')],
            session @ [\<lparr>comm_id = new_id, request_id = Some (report_request_id r),
                         direction = ''inbound'', message_type = ''report'',
                         payload = report_dict r, hmac_signature = Some sig,
                         ip_address = Some (client_host req), processed = False\<rparr>])"
  using vendor_dependencies_pass[OF assms] assms(1)
  by (simp add: receive_seo_report_def log_communication_def Let_def)

lemma signed_request_fields:
  "client_host (signed_request mac secret 1700000000 host j) = host"
  "x_vendor_signature (signed_request mac secret 1700000000 host j) =
     Some (hexdigest mac (utf8_encode secret)
            (signed_message ''1700000000'' (utf8_encode (json_dumps j))))"
  "x_vendor_timestamp (signed_request mac secret 1700000000 host j) = Some ''1700000000''"
  "body (signed_request mac secret 1700000000 host j) = utf8_encode (json_dumps j)"
  by (simp_all add: signed_request_def generate_hmac_headers_def Let_def str_int_sample
      signed_message_def utf8_encode_append utf8_encode_def utf8_encode_char_def)

lemma signed_request_verifies:
  assumes "\<bar>now - 1700000000\<bar> \<le> 300"
  shows "verify_hmac mac secret now
       (hexdigest mac (utf8_encode secret)
          (signed_message ''1700000000'' (utf8_encode (json_dumps j))))
       ''1700000000'' (utf8_encode (json_dumps j)) = Inr True"
proof -
  have "utf8_valid (utf8_encode (json_dumps j))" by (rule utf8_valid_encode)
  from verify_hmac_signed[OF this, of mac secret now "''1700000000''"] assms
  show ?thesis by (simp add: python_int_sample)
qed

lemma default_allows_10_0_0_5:
  "verify_ip_allowlist (ALLOWED_IP_NETWORKS default_settings) ''10.0.0.5'' = Inr True"
  by (simp add: verify_ip_allowlist_def default_settings_def ip_10_0_0_5 in_network_def
      netmask_def mask_eq_exp_minus_1)

lemma default_denies_192_168_1_1:
  "verify_ip_allowlist (ALLOWED_IP_NETWORKS default_settings) ''192.168.1.1''
     = Inl (HTTPException 403 ''IP not in allowlist'')"
  by (simp add: verify_ip_allowlist_def default_settings_def ip_192_168_1_1 in_network_def
      netmask_def mask_eq_exp_minus_1 HTTP_403_FORBIDDEN_def)

lemma mock_report_not_clean: "\<not> clean_dict (report_dict MOCK_SEO_REPORT)"
  by (simp add: report_dict_def MOCK_SEO_REPORT_def opt_str_def opt_dict_def
      has_identity_marker_def identity_markers_def lower_def lower_char_def)

lemma invalid_signature_is_not_a_digest:
  "''invalid-signature'' \<noteq> hexdigest mac key msg"
proof
  assume "''invalid-signature'' = hexdigest mac key msg"
  with hexdigest_hex[of mac key msg]
  have "set ''invalid-signature'' \<subseteq> set ''0123456789abcdef''" by simp
  then show False by simp
qed

lemma mock_report_request:
  fixes mac :: mac_fn
  defines "req \<equiv> signed_request mac (VENDOR_HMAC_SECRET default_settings) 1700000000 ''10.0.0.5''
                (JDict (report_dict MOCK_SEO_REPORT))"
  shows "x_vendor_signature req =
           Some (fst (generate_hmac_headers mac (VENDOR_HMAC_SECRET default_settings)
                        1700000000 (JDict (report_dict MOCK_SEO_REPORT))))"
    and "x_vendor_timestamp req = Some ''1700000000''"
    and "verify_hmac mac (VENDOR_HMAC_SECRET default_settings) 1700000000
           (fst (generate_hmac_headers mac (VENDOR_HMAC_SECRET default_settings)
                        1700000000 (JDict (report_dict MOCK_SEO_REPORT))))
           ''1700000000'' (body req) = Inr True"
    and "verify_hmac mac (VENDOR_HMAC_SECRET default_settings) 1700000120
           (fst (generate_hmac_headers mac (VENDOR_HMAC_SECRET default_settings)
                        1700000000 (JDict (report_dict MOCK_SEO_REPORT))))
           ''1700000000'' (body req) = Inr True"
    and "verify_ip_allowlist (ALLOWED_IP_NETWORKS default_settings) (client_host req) = Inr True"
proof -
  have sig: "fst (generate_hmac_headers mac (VENDOR_HMAC_SECRET default_settings)
                        1700000000 (JDict (report_dict MOCK_SEO_REPORT)))
     = hexdigest mac (utf8_encode (VENDOR_HMAC_SECRET default_settings))
         (signed_message ''1700000000''
            (utf8_encode (json_dumps (JDict (report_dict MOCK_SEO_REPORT)))))"
    by (simp add: generate_hmac_headers_def Let_def str_int_sample signed_message_def
        utf8_encode_append utf8_encode_def utf8_encode_char_def)
  show "x_vendor_signature req =
           Some (fst (generate_hmac_headers mac (VENDOR_HMAC_SECRET default_settings)
                        1700000000 (JDict (report_dict MOCK_SEO_REPORT))))"
    by (simp add: req_def signed_request_def)
  show "x_vendor_timestamp req = Some ''1700000000''"
    by (simp add: req_def signed_request_fields)
  have b: "body req = utf8_encode (json_dumps (JDict (report_dict MOCK_SEO_REPORT)))"
    by (simp add: req_def signed_request_def)
  show "verify_hmac mac (VENDOR_HMAC_SECRET default_settings) 1700000000
           (fst (generate_hmac_headers mac (VENDOR_HMAC_SECRET default_settings)
                        1700000000 (JDict (report_dict MOCK_SEO_REPORT))))
           ''1700000000'' (body req) = Inr True"
    unfolding sig b by (rule signed_request_verifies) simp
  show "verify_hmac mac (VENDOR_HMAC_SECRET default_settings) 1700000120
           (fst (generate_hmac_headers mac (VENDOR_HMAC_SECRET default_settings)
                        1700000000 (JDict (report_dict MOCK_SEO_REPORT))))
           ''1700000000'' (body req) = Inr True"
    unfolding sig b by (rule signed_request_verifies) simp
  show "verify_ip_allowlist (ALLOWED_IP_NETWORKS default_settings) (client_host req) = Inr True"
    by (simp add: req_def signed_request_def default_allows_10_0_0_5)
qed

text \<open>
  C2, as stated, fails: the report of the test suite, signed, fresh and from an allowed
  address, is answered with success and logged once, and the logged payload still has
  the key \<^verbatim>\<open>vendor_name\<close> with the value \<^verbatim>\<open>CustomerScout\<close>.
\<close>

theorem C2_counterexample:
  "\<forall>mac.
     fst (receive_seo_report mac default_settings 1700000000 ''id-1'' []
            (signed_request mac (VENDOR_HMAC_SECRET default_settings) 1700000000 ''10.0.0.5''
               (JDict (report_dict MOCK_SEO_REPORT)))
            (Some MOCK_SEO_REPORT))
       = Inr [(''success'', JBool True), (''message'', JStr ''Report received successfully'')]
   \<and> map payload
         (snd (receive_seo_report mac default_settings 1700000000 ''id-1'' []
                 (signed_request mac (VENDOR_HMAC_SECRET default_settings) 1700000000 ''10.0.0.5''
                    (JDict (report_dict MOCK_SEO_REPORT)))
                 (Some MOCK_SEO_REPORT)))
       = [report_dict MOCK_SEO_REPORT]
   \<and> map_of (report_details MOCK_SEO_REPORT) ''vendor_name'' = Some (JStr ''CustomerScout'')
   \<and> \<not> clean_dict (report_dict MOCK_SEO_REPORT)"
proof (intro allI)
  fix mac :: mac_fn
  note r = mock_report_request[of mac]
  from receive_seo_report_accepts[OF r(1) r(2) r(3) r(5), of "''id-1''" "[]" MOCK_SEO_REPORT]
  show "fst (receive_seo_report mac default_settings 1700000000 ''id-1'' []
            (signed_request mac (VENDOR_HMAC_SECRET default_settings) 1700000000 ''10.0.0.5''
               (JDict (report_dict MOCK_SEO_REPORT)))
            (Some MOCK_SEO_REPORT))
       = Inr [(''success'', JBool True), (''message'', JStr ''Report received successfully'')]
   \<and> map payload
         (snd (receive_seo_report mac default_settings 1700000000 ''id-1'' []
                 (signed_request mac (VENDOR_HMAC_SECRET default_settings) 1700000000 ''10.0.0.5''
                    (JDict (report_dict MOCK_SEO_REPORT)))
                 (Some MOCK_SEO_REPORT)))
       = [report_dict MOCK_SEO_REPORT]
   \<and> map_of (report_details MOCK_SEO_REPORT) ''vendor_name'' = Some (JStr ''CustomerScout'')
   \<and> \<not> clean_dict (report_dict MOCK_SEO_REPORT)"
    using mock_report_not_clean by (simp add: MOCK_SEO_REPORT_def)
qed

text \<open>
  C2, amended. A report with a valid signature, a fresh timestamp and an allowed peer
  address is answered with success, and exactly one row is appended to the audit table:
  direction inbound, message type report, and as payload the report as it was received,
  not redacted.
\<close>

theorem C2_report_logged_verbatim:
  assumes "x_vendor_signature req = Some sig" "x_vendor_timestamp req = Some ts"
    and "verify_hmac mac (VENDOR_HMAC_SECRET cfg) now sig ts (body req) = Inr True"
    and "verify_ip_allowlist (ALLOWED_IP_NETWORKS cfg) (client_host req) = Inr True"
  shows "receive_seo_report mac cfg now new_id session req (Some r) =
           (Inr [(''success'', JBool True), (''message'', JStr ''Report received successfully'')],
            session @ [\<lparr>comm_id = new_id, request_id = Some (report_request_id r),
                         direction = ''inbound'', message_type = ''report'',
                         payload = report_dict r, hmac_signature = Some sig,
                         ip_address = Some (client_host req), processed = False\<rparr>])"
  using assms by (rule receive_seo_report_accepts)

theorem C2_witness:
  "\<forall>mac.
     receive_seo_report mac default_settings 1700000120 ''id-1'' []
       (signed_request mac (VENDOR_HMAC_SECRET default_settings) 1700000000 ''10.0.0.5''
          (JDict (report_dict MOCK_SEO_REPORT)))
       (Some MOCK_SEO_REPORT)
     = (Inr [(''success'', JBool True), (''message'', JStr ''Report received successfully'')],
        [\<lparr>comm_id = ''id-1'', request_id = Some ''123e4567-e89b-12d3-a456-426614174000'',
          direction = ''inbound'', message_type = ''report'',
          payload = report_dict MOCK_SEO_REPORT,
          hmac_signature =
            Some (fst (generate_hmac_headers mac (VENDOR_HMAC_SECRET default_settings)
                         1700000000 (JDict (report_dict MOCK_SEO_REPORT)))),
          ip_address = Some ''10.0.0.5'', processed = False\<rparr>])"
proof (intro allI)
  fix mac :: mac_fn
  note r = mock_report_request[of mac]
  from C2_report_logged_verbatim[OF r(1) r(2) r(4) r(5), of "''id-1''" "[]" MOCK_SEO_REPORT]
  show "receive_seo_report mac default_settings 1700000120 ''id-1'' []
       (signed_request mac (VENDOR_HMAC_SECRET default_settings) 1700000000 ''10.0.0.5''
          (JDict (report_dict MOCK_SEO_REPORT)))
       (Some MOCK_SEO_REPORT)
     = (Inr [(''success'', JBool True), (''message'', JStr ''Report received successfully'')],
        [\<lparr>comm_id = ''id-1'', request_id = Some ''123e4567-e89b-12d3-a456-426614174000'',
          direction = ''inbound'', message_type = ''report'',
          payload = report_dict MOCK_SEO_REPORT,
          hmac_signature =
            Some (fst (generate_hmac_headers mac (VENDOR_HMAC_SECRET default_settings)
                         1700000000 (JDict (report_dict MOCK_SEO_REPORT)))),
          ip_address = Some ''10.0.0.5'', processed = False\<rparr>])"
    by (simp add: signed_request_def MOCK_SEO_REPORT_def)
qed

lemma wrong_signature_rejected_first:
  fixes mac :: mac_fn and j :: json
  defines "req \<equiv> \<lparr>client_host = ''192.168.1.1'',
                     x_vendor_signature = Some ''invalid-signature'',
                     x_vendor_timestamp = Some ''1700000000'',
                     body = utf8_encode (json_dumps j)\<rparr>"
  shows "vendor_dependencies mac default_settings 1700000000 req
           = Inl (HTTPException 401 ''Invalid signature'')"
proof -
  have "verify_hmac mac (VENDOR_HMAC_SECRET default_settings) 1700000000
          ''invalid-signature'' ''1700000000'' (utf8_encode (json_dumps j))
        = Inl (HTTPException 401 ''Invalid signature'')"
    by (rule verify_hmac_wrong_signature)
       (simp_all add: utf8_valid_encode is_ascii_def invalid_signature_is_not_a_digest)
  then show ?thesis
    by (simp add: req_def vendor_dependencies_def)
qed

text \<open>
  C3, as stated, fails: a request from 192.168.1.1, outside the default allowlist, with
  a wrong signature is answered 401 by the report and the publish endpoint, not 403.
\<close>

theorem C3_counterexample:
  "\<forall>mac.
     verify_ip_allowlist (ALLOWED_IP_NETWORKS default_settings) ''192.168.1.1''
       = Inl (HTTPException 403 ''IP not in allowlist'')
   \<and> receive_seo_report mac default_settings 1700000000 ''id-1'' []
       \<lparr>client_host = ''192.168.1.1'',
        x_vendor_signature = Some ''invalid-signature'',
        x_vendor_timestamp = Some ''1700000000'',
        body = utf8_encode (json_dumps (JDict (report_dict MOCK_SEO_REPORT)))\<rparr>
       (Some MOCK_SEO_REPORT)
       = (Inl (HTTPException 401 ''Invalid signature''), [])
   \<and> receive_publish_notification mac default_settings 1700000000 ''id-1'' []
       \<lparr>client_host = ''192.168.1.1'',
        x_vendor_signature = Some ''invalid-signature'',
        x_vendor_timestamp = Some ''1700000000'',
        body = utf8_encode (json_dumps (JDict (notification_dict MOCK_PUBLISH_NOTIFICATION)))\<rparr>
       (Some MOCK_PUBLISH_NOTIFICATION)
       = (Inl (HTTPException 401 ''Invalid signature''), [])"
  using default_denies_192_168_1_1
    endpoint_failure_of_dependencies(1)[OF wrong_signature_rejected_first]
    endpoint_failure_of_dependencies(2)[OF wrong_signature_rejected_first]
  by simp

text \<open>
  C3, amended. On the three inbound endpoints the signature and freshness check comes
  first: when both signature headers are present and the check fails, its failure is
  the answer whatever the peer address, and nothing is logged. An answer with status 403
  is the allowlist's, and is given only when the signature check has passed or was not
  run because a signature header is missing.
\<close>

theorem C3_signature_before_allowlist:
  "(x_vendor_signature req = Some sig \<and> x_vendor_timestamp req = Some ts
      \<and> verify_hmac mac (VENDOR_HMAC_SECRET cfg) now sig ts (body req) = Inl e \<longrightarrow>
      receive_seo_report mac cfg now new_id session req report = (Inl e, session)
      \<and> receive_publish_notification mac cfg now new_id session req notification
          = (Inl e, session)
      \<and> receive_vendor_file mac cfg now new_id session req form = (Inl e, session))
   \<and> (\<forall>f. (fst (receive_seo_report mac cfg now new_id session req report) = Inl f
           \<or> fst (receive_publish_notification mac cfg now new_id session req notification) = Inl f
           \<or> fst (receive_vendor_file mac cfg now new_id session req form) = Inl f)
          \<and> status_code f = 403 \<longrightarrow>
          verify_ip_allowlist (ALLOWED_IP_NETWORKS cfg) (client_host req) = Inl f
          \<and> (x_vendor_signature req = None \<or> x_vendor_timestamp req = None
              \<or> (\<exists>s t. x_vendor_signature req = Some s \<and> x_vendor_timestamp req = Some t
                    \<and> verify_hmac mac (VENDOR_HMAC_SECRET cfg) now s t (body req) = Inr True)))"
proof (intro conjI impI allI)
  assume a: "x_vendor_signature req = Some sig \<and> x_vendor_timestamp req = Some ts
      \<and> verify_hmac mac (VENDOR_HMAC_SECRET cfg) now sig ts (body req) = Inl e"
  then have d: "vendor_dependencies mac cfg now req = Inl e"
    by (simp add: vendor_dependencies_hmac_failure)
  show "receive_seo_report mac cfg now new_id session req report = (Inl e, session)"
    by (rule endpoint_failure_of_dependencies(1)[OF d])
  show "receive_publish_notification mac cfg now new_id session req notification
          = (Inl e, session)"
    by (rule endpoint_failure_of_dependencies(2)[OF d])
  show "receive_vendor_file mac cfg now new_id session req form = (Inl e, session)"
    by (rule endpoint_failure_of_dependencies(3)[OF d])
next
  fix f
  assume b: "(fst (receive_seo_report mac cfg now new_id session req report) = Inl f
           \<or> fst (receive_publish_notification mac cfg now new_id session req notification) = Inl f
           \<or> fst (receive_vendor_file mac cfg now new_id session req form) = Inl f)
          \<and> status_code f = 403"
  then have "vendor_dependencies mac cfg now req = Inl f"
    using endpoint_forbidden_from_dependencies by blast
  from vendor_dependencies_forbidden[OF this] b
  show "verify_ip_allowlist (ALLOWED_IP_NETWORKS cfg) (client_host req) = Inl f"
    and "x_vendor_signature req = None \<or> x_vendor_timestamp req = None
              \<or> (\<exists>s t. x_vendor_signature req = Some s \<and> x_vendor_timestamp req = Some t
                    \<and> verify_hmac mac (VENDOR_HMAC_SECRET cfg) now s t (body req) = Inr True)"
    by simp_all
qed


lemma vendor_dependencies_ip_failure:
  assumes "x_vendor_signature req = Some sig" "x_vendor_timestamp req = Some ts"
    and "verify_hmac mac (VENDOR_HMAC_SECRET cfg) now sig ts (body req) = Inr True"
    and "verify_ip_allowlist (ALLOWED_IP_NETWORKS cfg) (client_host req) = Inl f"
  shows "vendor_dependencies mac cfg now req = Inl f"
  using assms by (simp add: vendor_dependencies_def)

theorem C3_witness:
  "\<forall>mac.
     receive_seo_report mac default_settings 1700000000 ''id-1'' []
       \<lparr>client_host = ''192.168.1.1'',
        x_vendor_signature = Some ''invalid-signature'',
        x_vendor_timestamp = Some ''1700000000'',
        body = utf8_encode (json_dumps (JDict (report_dict MOCK_SEO_REPORT)))\<rparr>
       (Some MOCK_SEO_REPORT)
       = (Inl (HTTPException 401 ''Invalid signature''), [])
   \<and> receive_seo_report mac default_settings 1700000000 ''id-1'' []
       (signed_request mac (VENDOR_HMAC_SECRET default_settings) 1700000000 ''192.168.1.1''
          (JDict (report_dict MOCK_SEO_REPORT)))
       (Some MOCK_SEO_REPORT)
       = (Inl (HTTPException 403 ''IP not in allowlist''), [])"
proof (intro allI conjI)
  fix mac :: mac_fn
  let ?raw = "utf8_encode (json_dumps (JDict (report_dict MOCK_SEO_REPORT)))"
  let ?bad = "\<lparr>client_host = ''192.168.1.1'',
        x_vendor_signature = Some ''invalid-signature'',
        x_vendor_timestamp = Some ''1700000000'',
        body = ?raw\<rparr>"
  have h: "verify_hmac mac (VENDOR_HMAC_SECRET default_settings) 1700000000
          ''invalid-signature'' ''1700000000'' (body ?bad)
        = Inl (HTTPException 401 ''Invalid signature'')"
    by (simp, rule verify_hmac_wrong_signature)
       (simp_all add: utf8_valid_encode is_ascii_def invalid_signature_is_not_a_digest)
  have "receive_seo_report mac default_settings 1700000000 ''id-1'' [] ?bad (Some MOCK_SEO_REPORT)
          = (Inl (HTTPException 401 ''Invalid signature''), [])
        \<and> receive_publish_notification mac default_settings 1700000000 ''id-1'' [] ?bad None
          = (Inl (HTTPException 401 ''Invalid signature''), [])
        \<and> receive_vendor_file mac default_settings 1700000000 ''id-1'' [] ?bad None
          = (Inl (HTTPException 401 ''Invalid signature''), [])"
  proof (rule C3_signature_before_allowlist
      [where sig = "''invalid-signature''" and ts = "''1700000000''", THEN conjunct1, THEN mp])
    show "x_vendor_signature ?bad = Some ''invalid-signature''
        \<and> x_vendor_timestamp ?bad = Some ''1700000000''
        \<and> verify_hmac mac (VENDOR_HMAC_SECRET default_settings) 1700000000
            ''invalid-signature'' ''1700000000'' (body ?bad)
          = Inl (HTTPException 401 ''Invalid signature'')"
      using h by simp
  qed
  then show "receive_seo_report mac default_settings 1700000000 ''id-1'' [] ?bad (Some MOCK_SEO_REPORT)
       = (Inl (HTTPException 401 ''Invalid signature''), [])"
    by (rule conjunct1)
next
  fix mac :: mac_fn
  let ?req = "signed_request mac (VENDOR_HMAC_SECRET default_settings) 1700000000 ''192.168.1.1''
          (JDict (report_dict MOCK_SEO_REPORT))"
  have "vendor_dependencies mac default_settings 1700000000 ?req
          = Inl (HTTPException 403 ''IP not in allowlist'')"
  proof (rule vendor_dependencies_ip_failure)
    show "x_vendor_signature ?req = Some (hexdigest mac (utf8_encode (VENDOR_HMAC_SECRET default_settings))
            (signed_message ''1700000000'' (utf8_encode (json_dumps (JDict (report_dict MOCK_SEO_REPORT))))))"
      by (rule signed_request_fields)
    show "x_vendor_timestamp ?req = Some ''1700000000''"
      by (rule signed_request_fields)
    show "verify_hmac mac (VENDOR_HMAC_SECRET default_settings) 1700000000
            (hexdigest mac (utf8_encode (VENDOR_HMAC_SECRET default_settings))
              (signed_message ''1700000000'' (utf8_encode (json_dumps (JDict (report_dict MOCK_SEO_REPORT))))))
            ''1700000000'' (body ?req) = Inr True"
      unfolding signed_request_fields(4) by (rule signed_request_verifies) simp
    show "verify_ip_allowlist (ALLOWED_IP_NETWORKS default_settings) (client_host ?req)
            = Inl (HTTPException 403 ''IP not in allowlist'')"
      unfolding signed_request_fields(1) by (rule default_denies_192_168_1_1)
  qed
  then show "receive_seo_report mac default_settings 1700000000 ''id-1'' [] ?req (Some MOCK_SEO_REPORT)
       = (Inl (HTTPException 403 ''IP not in allowlist''), [])"
    by (rule endpoint_failure_of_dependencies(1))
qed

subsection \<open>The caller's payload after \<^verbatim>\<open>sanitize_vendor_data\<close>\<close>

text \<open>
  The store after the call is the store before it followed by new objects. The proof
  follows the three functions of the store model with a footprint: the payload is read
  through addresses below the length of the store, the loop writes to the copy only,
  which is not among them, and an allocation appends.
\<close>

lemma held_frame:
  "(\<forall>i\<in>A. heap_lookup h' i = heap_lookup h i) \<Longrightarrow> held A h v t \<Longrightarrow> held A h' v t"
  "(\<forall>i\<in>A. heap_lookup h' i = heap_lookup h i) \<Longrightarrow> held_items A h items d \<Longrightarrow> held_items A h' items d"
  "(\<forall>i\<in>A. heap_lookup h' i = heap_lookup h i) \<Longrightarrow> held_list A h vs ts \<Longrightarrow> held_list A h' vs ts"
  by (induction A h v t and A h items d and A h vs ts rule: held_held_items_held_list.induct)
     (auto split: pyval.splits option.splits pyobj.splits list.splits)

lemma held_mono:
  "A \<subseteq> B \<Longrightarrow> held A h v t \<Longrightarrow> held B h v t"
  "A \<subseteq> B \<Longrightarrow> held_items A h items d \<Longrightarrow> held_items B h items d"
  "A \<subseteq> B \<Longrightarrow> held_list A h vs ts \<Longrightarrow> held_list B h vs ts"
  by (induction A h v t and A h items d and A h vs ts rule: held_held_items_held_list.induct)
     (auto split: pyval.splits option.splits pyobj.splits list.splits)

lemma held_below:
  "held A h v t \<Longrightarrow> held (A \<inter> {..<length h}) h v t"
  "held_items A h items d \<Longrightarrow> held_items (A \<inter> {..<length h}) h items d"
  "held_list A h vs ts \<Longrightarrow> held_list (A \<inter> {..<length h}) h vs ts"
  by (induction A h v t and A h items d and A h vs ts rule: held_held_items_held_list.induct)
     (auto simp: heap_lookup_def split: pyval.splits option.splits pyobj.splits list.splits if_splits)


lemma heap_lookup_append: "a < length h \<Longrightarrow> heap_lookup (h @ ext) a = heap_lookup h a"
  by (simp add: heap_lookup_def nth_append)

lemma heap_lookup_slot: "a < length h \<Longrightarrow> heap_lookup h a = Some (h ! a)"
  by (simp add: heap_lookup_def)

lemma heap_lookup_new: "heap_lookup (h @ x # ext) (length h) = Some x"
  by (simp add: heap_lookup_def)

lemma heap_lookup_update_other:
  "i \<noteq> a \<Longrightarrow> heap_lookup (h[a := X]) i = heap_lookup h i"
  by (simp add: heap_lookup_def)

lemma setitem_absent:
  "key \<notin> fst ` set xs \<Longrightarrow> map (\<lambda>(k, w). if k = key then (k, v) else (k, w)) xs = xs"
  by (induction xs) auto

lemma dict_setitem_here:
  assumes "key \<notin> fst ` set done" "key \<notin> fst ` set rest"
  shows "dict_setitem key v' (done @ (key, v) # rest) = done @ (key, v') # rest"
  using assms by (simp add: dict_setitem_def setitem_absent)

lemma delitem_absent: "key \<notin> fst ` set xs \<Longrightarrow> filter (\<lambda>(k, w). k \<noteq> key) xs = xs"
  by (induction xs) auto

lemma dict_delitem_here:
  assumes "key \<notin> fst ` set done" "key \<notin> fst ` set rest"
  shows "dict_delitem key (done @ (key, v) # rest) = done @ rest"
  using assms by (simp add: dict_delitem_def delitem_absent)

lemma heap_setitem_slot:
  assumes "a < length h" "h ! a = ODict (done @ (key, v) # rest)"
    and "key \<notin> fst ` set done" "key \<notin> fst ` set rest"
  shows "heap_setitem (h @ ext) a key v' = h[a := ODict (done @ (key, v') # rest)] @ ext"
  using assms
  by (simp add: heap_setitem_def heap_lookup_def nth_append dict_setitem_here
      list_update_append1)

lemma heap_delitem_slot:
  assumes "a < length h" "h ! a = ODict (done @ (key, v) # rest)"
    and "key \<notin> fst ` set done" "key \<notin> fst ` set rest"
  shows "heap_delitem h a key = h[a := ODict (done @ rest)]"
  using assms
  by (simp add: heap_delitem_def heap_lookup_def dict_delitem_here)

lemma held_items_keys: "held_items A h items d \<Longrightarrow> map fst items = map fst d"
  by (induction d arbitrary: items) (auto split: list.splits)

lemma sanitize_keys:
  "map fst (sanitize_vendor_data d) = filter (\<lambda>k. \<not> has_vendor_field k) (map fst d)"
  by (induction d) auto

lemma is_dict_ref_held: "held A h v t \<Longrightarrow> is_dict_ref h v = is_dict t"
  by (cases t) (auto simp: is_dict_ref_def split: pyval.splits option.splits pyobj.splits)

lemma all_dict_ref_held:
  "held_list A h xs ts \<Longrightarrow> list_all (is_dict_ref h) xs = list_all is_dict ts"
  by (induction ts arbitrary: xs) (auto simp: is_dict_ref_held split: list.splits)


lemma held_append:
  assumes "A \<subseteq> {..<length h}"
  shows "held A h v t \<Longrightarrow> held A (h @ ext) v t"
    and "held_items A h items d \<Longrightarrow> held_items A (h @ ext) items d"
    and "held_list A h vs ts \<Longrightarrow> held_list A (h @ ext) vs ts"
proof -
  have f: "\<forall>i\<in>A. heap_lookup (h @ ext) i = heap_lookup h i"
    using assms by (auto simp: heap_lookup_append)
  show "held A h v t \<Longrightarrow> held A (h @ ext) v t"
    by (rule held_frame(1)[OF f])
  show "held_items A h items d \<Longrightarrow> held_items A (h @ ext) items d"
    by (rule held_frame(2)[OF f])
  show "held_list A h vs ts \<Longrightarrow> held_list A (h @ ext) vs ts"
    by (rule held_frame(3)[OF f])
qed

lemma held_update_append:
  assumes "A \<subseteq> {..<length h}" "a \<notin> A"
  shows "held A h v t \<Longrightarrow> held A (h[a := X] @ ext) v t"
    and "held_items A h items d \<Longrightarrow> held_items A (h[a := X] @ ext) items d"
    and "held_list A h vs ts \<Longrightarrow> held_list A (h[a := X] @ ext) vs ts"
proof -
  have f: "\<forall>i\<in>A. heap_lookup (h[a := X] @ ext) i = heap_lookup h i"
  proof
    fix i assume i: "i \<in> A"
    with assms have "i < length h" "i \<noteq> a" by auto
    then show "heap_lookup (h[a := X] @ ext) i = heap_lookup h i"
      by (simp add: heap_lookup_def nth_append)
  qed
  show "held A h v t \<Longrightarrow> held A (h[a := X] @ ext) v t"
    by (rule held_frame(1)[OF f])
  show "held_items A h items d \<Longrightarrow> held_items A (h[a := X] @ ext) items d"
    by (rule held_frame(2)[OF f])
  show "held_list A h vs ts \<Longrightarrow> held_list A (h[a := X] @ ext) vs ts"
    by (rule held_frame(3)[OF f])
qed

lemma store_from_loop:
  assumes "loop_spec d"
  shows "store_spec d"
  unfolding store_spec_def
proof (intro allI impI)
  fix depth h data A
  assume pre: "held A h (VRef data) (JDict d) \<and> A \<subseteq> {..<length h} \<and> nesting (JDict d) \<le> depth"
  then obtain items where
    look: "heap_lookup h data = Some (ODict items)" and
    dist: "distinct (map fst items)" and
    items: "held_items A h items d" and
    A: "A \<subseteq> {..<length h}"
    by (auto split: option.splits pyobj.splits)
  from pre obtain k where k: "depth = Suc k" "nesting_items d \<le> k"
    by (cases depth) auto
  let ?h1 = "h @ [ODict items]"
  have "\<exists>fin ext. sanitize_loop k ?h1 (length h) items
            = Inr (?h1[length h := ODict ([] @ fin)] @ ext)
          \<and> held_items (A \<union> new_addresses ?h1 ext) (?h1[length h := ODict ([] @ fin)] @ ext) fin
                (sanitize_vendor_data d)"
  proof (rule assms[unfolded loop_spec_def, rule_format])
    show "length h < length ?h1 \<and> ?h1 ! length h = ODict ([] @ items)
        \<and> distinct (map fst ([] @ items)) \<and> held_items A ?h1 items d
        \<and> A \<subseteq> {..<length ?h1} \<and> length h \<notin> A \<and> nesting_items d \<le> k"
      using dist A k held_append(2)[OF A items] by auto
  qed
  then obtain fin ext where
    run: "sanitize_loop k ?h1 (length h) items = Inr ((h @ [ODict fin]) @ ext)" and
    fin: "held_items (A \<union> new_addresses ?h1 ext) ((h @ [ODict fin]) @ ext) fin
            (sanitize_vendor_data d)"
    by auto
  have keys: "map fst fin = filter (\<lambda>k. \<not> has_vendor_field k) (map fst items)"
    using held_items_keys[OF fin] held_items_keys[OF items] by (simp add: sanitize_keys)
  have sub: "A \<union> new_addresses ?h1 ext \<subseteq> A \<union> new_addresses h (ODict fin # ext)"
    by (auto simp: new_addresses_def)
  have "sanitize_store depth h data = Inr (length h, h @ (ODict fin # ext))"
    using look run k by simp
  moreover have "held (A \<union> new_addresses h (ODict fin # ext)) (h @ (ODict fin # ext))
                   (VRef (length h)) (JDict (sanitize_vendor_data d))"
    using held_mono(2)[OF sub fin] keys dist
    by (simp add: heap_lookup_new new_addresses_def)
  ultimately show "\<exists>ext. sanitize_store depth h data = Inr (length h, h @ ext)
           \<and> held (A \<union> new_addresses h ext) (h @ ext) (VRef (length h))
                (JDict (sanitize_vendor_data d))"
    by blast
qed


lemma held_update_append_new:
  assumes "A \<subseteq> {..<length h}" "a \<notin> A" "a < length h"
  shows "held (A \<union> new_addresses h ext) (h @ ext) v t
           \<Longrightarrow> held (A \<union> new_addresses h ext) (h[a := X] @ ext @ ext') v t"
    and "held_list (A \<union> new_addresses h ext) (h @ ext) vs ts
           \<Longrightarrow> held_list (A \<union> new_addresses h ext) (h[a := X] @ ext @ ext') vs ts"
proof -
  have f: "\<forall>i\<in>A \<union> new_addresses h ext.
             heap_lookup (h[a := X] @ ext @ ext') i = heap_lookup (h @ ext) i"
  proof
    fix i assume "i \<in> A \<union> new_addresses h ext"
    with assms have "i \<noteq> a" "i < length h + length ext"
      by (auto simp: new_addresses_def)
    then show "heap_lookup (h[a := X] @ ext @ ext') i = heap_lookup (h @ ext) i"
      by (auto simp add: heap_lookup_def nth_append)
  qed
  show "held (A \<union> new_addresses h ext) (h @ ext) v t
           \<Longrightarrow> held (A \<union> new_addresses h ext) (h[a := X] @ ext @ ext') v t"
    by (rule held_frame(1)[OF f])
  show "held_list (A \<union> new_addresses h ext) (h @ ext) vs ts
           \<Longrightarrow> held_list (A \<union> new_addresses h ext) (h[a := X] @ ext @ ext') vs ts"
    by (rule held_frame(3)[OF f])
qed

lemma loop_body:
  assumes a: "a < length h" and slot: "h ! a = ODict (done @ (key, v) # rest)"
    and k1: "key \<notin> fst ` set done" and k2: "key \<notin> fst ` set rest"
    and v: "held A h v t" and A: "A \<subseteq> {..<length h}" and aA: "a \<notin> A"
    and n: "nesting t \<le> depth" and nv: "\<not> has_vendor_field key" and spec: "value_spec t"
  shows "\<exists>v' ext.
           sanitize_loop depth h a ((key, v) # rest)
             = sanitize_loop depth (h[a := ODict (done @ (key, v') # rest)] @ ext) a rest
         \<and> held (A \<union> new_addresses h ext) (h[a := ODict (done @ (key, v') # rest)] @ ext) v'
              (sanitize_value t)"
proof -
  have same: "h[a := ODict (done @ (key, v) # rest)] @ [] = h"
    using slot by (simp add: list_update_same_conv a)
  have keep: "sanitize_loop depth h a ((key, v) # rest) = sanitize_loop depth h a rest
              \<Longrightarrow> sanitize_value t = t \<Longrightarrow> ?thesis"
  proof -
    assume r: "sanitize_loop depth h a ((key, v) # rest) = sanitize_loop depth h a rest"
      and t: "sanitize_value t = t"
    have "sanitize_loop depth h a ((key, v) # rest)
             = sanitize_loop depth (h[a := ODict (done @ (key, v) # rest)] @ []) a rest"
      using r same by simp
    moreover have "held (A \<union> new_addresses h []) (h[a := ODict (done @ (key, v) # rest)] @ []) v
              (sanitize_value t)"
      using v t same by (simp add: new_addresses_def)
    ultimately show ?thesis by blast
  qed
  show ?thesis
  proof (cases t)
    case JNull
    with v nv show ?thesis by (intro keep) simp_all
  next
    case (JBool b)
    with v nv show ?thesis by (intro keep) simp_all
  next
    case (JInt i)
    with v nv show ?thesis by (intro keep) simp_all
  next
    case (JFloat r)
    with v nv show ?thesis by (intro keep) simp_all
  next
    case (JStr s)
    with v have vs: "v = VStr s" by simp
    let ?v' = "VStr (replace_vendor_name s)"
    have "heap_setitem (h @ []) a key ?v' = h[a := ODict (done @ (key, ?v') # rest)] @ []"
      by (rule heap_setitem_slot[OF a slot k1 k2])
    then have "sanitize_loop depth h a ((key, v) # rest)
             = sanitize_loop depth (h[a := ODict (done @ (key, ?v') # rest)] @ []) a rest"
      using nv vs by simp
    moreover have "held (A \<union> new_addresses h []) (h[a := ODict (done @ (key, ?v') # rest)] @ []) ?v'
              (sanitize_value t)"
      using JStr by simp
    ultimately show ?thesis by blast
  next
    case (JDict dv)
    with v obtain r its where vr: "v = VRef r" and look: "heap_lookup h r = Some (ODict its)"
      by (auto split: pyval.splits option.splits pyobj.splits)
    from spec JDict have "store_spec dv" by (simp add: value_spec_def)
    then have "\<exists>ext. sanitize_store depth h r = Inr (length h, h @ ext)
           \<and> held (A \<union> new_addresses h ext) (h @ ext) (VRef (length h))
                (JDict (sanitize_vendor_data dv))"
      unfolding store_spec_def using v A n JDict vr by blast
    then obtain ext where
      run: "sanitize_store depth h r = Inr (length h, h @ ext)" and
      res: "held (A \<union> new_addresses h ext) (h @ ext) (VRef (length h))
                (JDict (sanitize_vendor_data dv))"
      by blast
    let ?v' = "VRef (length h)"
    have set: "heap_setitem (h @ ext) a key ?v' = h[a := ODict (done @ (key, ?v') # rest)] @ ext"
      by (rule heap_setitem_slot[OF a slot k1 k2])
    have "sanitize_loop depth h a ((key, v) # rest)
             = sanitize_loop depth (h[a := ODict (done @ (key, ?v') # rest)] @ ext) a rest"
      using nv vr look run set by simp
    moreover have "held (A \<union> new_addresses h ext) (h[a := ODict (done @ (key, ?v') # rest)] @ ext) ?v'
              (sanitize_value t)"
      using held_update_append_new(1)[OF A aA a res, of _ "[]"] JDict by simp
    ultimately show ?thesis by blast
  next
    case (JList ts)
    with v obtain r xs where vr: "v = VRef r" and look: "heap_lookup h r = Some (OList xs)"
      and xs: "held_list A h xs ts"
      by (auto split: pyval.splits option.splits pyobj.splits)
    show ?thesis
    proof (cases "list_all is_dict ts")
      case False
      then have "\<not> list_all (is_dict_ref h) xs"
        using all_dict_ref_held[OF xs] by simp
      with nv vr look False JList show ?thesis by (intro keep) simp_all
    next
      case True
      then have all: "list_all (is_dict_ref h) xs"
        using all_dict_ref_held[OF xs] by simp
      from spec JList have "comprehension_spec ts" by (simp add: value_spec_def)
      then have "\<exists>ys ext. sanitize_comprehension depth h xs = Inr (ys, h @ ext)
           \<and> held_list (A \<union> new_addresses h ext) (h @ ext) ys (sanitize_each ts)"
        unfolding comprehension_spec_def using xs True A n JList by auto
      then obtain ys ext where
        run: "sanitize_comprehension depth h xs = Inr (ys, h @ ext)" and
        res: "held_list (A \<union> new_addresses h ext) (h @ ext) ys (sanitize_each ts)"
        by blast
      let ?v' = "VRef (length h + length ext)"
      let ?ext = "ext @ [OList ys]"
      let ?H = "h[a := ODict (done @ (key, ?v') # rest)] @ ?ext"
      have set: "heap_setitem (h @ ?ext) a key ?v' = ?H"
        by (rule heap_setitem_slot[OF a slot k1 k2])
      have "sanitize_loop depth h a ((key, v) # rest) = sanitize_loop depth ?H a rest"
        using nv vr look all run set by simp
      moreover have "held (A \<union> new_addresses h ?ext) ?H ?v' (sanitize_value t)"
      proof -
        have l: "heap_lookup ?H (length h + length ext) = Some (OList ys)"
          by (simp add: heap_lookup_def nth_append)
        have "held_list (A \<union> new_addresses h ext) ?H ys (sanitize_each ts)"
          using held_update_append_new(2)[OF A aA a res, of _ "[OList ys]"] by simp
        moreover have "A \<union> new_addresses h ext \<subseteq> A \<union> new_addresses h ?ext"
          by (auto simp: new_addresses_def)
        ultimately have "held_list (A \<union> new_addresses h ?ext) ?H ys (sanitize_each ts)"
          by (rule held_mono(3)[rotated])
        moreover have "length h + length ext \<in> A \<union> new_addresses h ?ext"
          by (simp add: new_addresses_def)
        ultimately show ?thesis using JList True l by simp
      qed
      ultimately show ?thesis by blast
    qed
  qed
qed


lemma loop_spec_Nil: "loop_spec []"
  unfolding loop_spec_def
proof (intro allI impI)
  fix depth h a treated rest A
  assume pre: "a < length h \<and> h ! a = ODict (treated @ rest) \<and> distinct (map fst (treated @ rest))
          \<and> held_items A h rest [] \<and> A \<subseteq> {..<length h} \<and> a \<notin> A \<and> nesting_items [] \<le> depth"
  then have rest: "rest = []" by simp
  with pre have "h[a := ODict (treated @ [])] @ [] = h"
    by (simp add: list_update_same_conv)
  with rest have "sanitize_loop depth h a rest = Inr (h[a := ODict (treated @ [])] @ [])
      \<and> held_items (A \<union> new_addresses h []) (h[a := ODict (treated @ [])] @ []) []
            (sanitize_vendor_data [])"
    by simp
  then show "\<exists>fin ext. sanitize_loop depth h a rest = Inr (h[a := ODict (treated @ fin)] @ ext)
           \<and> held_items (A \<union> new_addresses h ext) (h[a := ODict (treated @ fin)] @ ext) fin
                (sanitize_vendor_data [])"
    by blast
qed

lemma loop_spec_Cons:
  assumes ih: "loop_spec d" and iv: "\<not> has_vendor_field key \<Longrightarrow> value_spec t"
  shows "loop_spec ((key, t) # d)"
  unfolding loop_spec_def
proof (intro allI impI)
  fix depth h a treated rest A
  assume pre: "a < length h \<and> h ! a = ODict (treated @ rest) \<and> distinct (map fst (treated @ rest))
          \<and> held_items A h rest ((key, t) # d) \<and> A \<subseteq> {..<length h} \<and> a \<notin> A
          \<and> nesting_items ((key, t) # d) \<le> depth"
  then obtain v rest' where rest: "rest = (key, v) # rest'"
    and v: "held A h v t" and items: "held_items A h rest' d"
    by (auto split: list.splits)
  from pre rest have a: "a < length h" and slot: "h ! a = ODict (treated @ (key, v) # rest')"
    and A: "A \<subseteq> {..<length h}" and aA: "a \<notin> A"
    and nt: "nesting t \<le> depth" and nd: "nesting_items d \<le> depth"
    and k1: "key \<notin> fst ` set treated" and k2: "key \<notin> fst ` set rest'"
    and d1: "distinct (map fst (treated @ rest'))"
    by auto
  show "\<exists>fin ext. sanitize_loop depth h a rest = Inr (h[a := ODict (treated @ fin)] @ ext)
           \<and> held_items (A \<union> new_addresses h ext) (h[a := ODict (treated @ fin)] @ ext) fin
                (sanitize_vendor_data ((key, t) # d))"
  proof (cases "has_vendor_field key")
    case True
    let ?h1 = "h[a := ODict (treated @ rest')]"
    have del: "heap_delitem h a key = ?h1"
      by (rule heap_delitem_slot[OF a slot k1 k2])
    have "\<exists>fin ext. sanitize_loop depth ?h1 a rest' = Inr (?h1[a := ODict (treated @ fin)] @ ext)
           \<and> held_items (A \<union> new_addresses ?h1 ext) (?h1[a := ODict (treated @ fin)] @ ext) fin
                (sanitize_vendor_data d)"
    proof (rule ih[unfolded loop_spec_def, rule_format])
      show "a < length ?h1 \<and> ?h1 ! a = ODict (treated @ rest') \<and> distinct (map fst (treated @ rest'))
          \<and> held_items A ?h1 rest' d \<and> A \<subseteq> {..<length ?h1} \<and> a \<notin> A \<and> nesting_items d \<le> depth"
        using a d1 A aA nd held_update_append(2)[OF A aA items, of _ "[]"] by simp
    qed
    then obtain fin ext where
      run: "sanitize_loop depth ?h1 a rest' = Inr (h[a := ODict (treated @ fin)] @ ext)" and
      fin: "held_items (A \<union> new_addresses h ext) (h[a := ODict (treated @ fin)] @ ext) fin
                (sanitize_vendor_data d)"
      by (auto simp: new_addresses_def)
    have "sanitize_loop depth h a rest = Inr (h[a := ODict (treated @ fin)] @ ext)"
      using True rest del run by simp
    with fin True show ?thesis by auto
  next
    case False
    from loop_body[OF a slot k1 k2 v A aA nt False iv[OF False]]
    obtain v' ext1 where
      step: "sanitize_loop depth h a ((key, v) # rest')
             = sanitize_loop depth (h[a := ODict (treated @ (key, v') # rest')] @ ext1) a rest'" and
      v': "held (A \<union> new_addresses h ext1) (h[a := ODict (treated @ (key, v') # rest')] @ ext1) v'
              (sanitize_value t)"
      by blast
    let ?h1 = "h[a := ODict (treated @ (key, v') # rest')] @ ext1"
    let ?A1 = "A \<union> new_addresses h ext1"
    have A1: "?A1 \<subseteq> {..<length ?h1}" and aA1: "a \<notin> ?A1"
      using A aA a by (auto simp: new_addresses_def)
    have a1: "a < length ?h1" using a by simp
    have items1: "held_items ?A1 ?h1 rest' d"
      using held_mono(2)[OF _ held_update_append(2)[OF A aA items]] by blast
    have "\<exists>fin ext. sanitize_loop depth ?h1 a rest'
             = Inr (?h1[a := ODict ((treated @ [(key, v')]) @ fin)] @ ext)
           \<and> held_items (?A1 \<union> new_addresses ?h1 ext)
                (?h1[a := ODict ((treated @ [(key, v')]) @ fin)] @ ext) fin
                (sanitize_vendor_data d)"
    proof (rule ih[unfolded loop_spec_def, rule_format])
      show "a < length ?h1 \<and> ?h1 ! a = ODict ((treated @ [(key, v')]) @ rest')
          \<and> distinct (map fst ((treated @ [(key, v')]) @ rest'))
          \<and> held_items ?A1 ?h1 rest' d \<and> ?A1 \<subseteq> {..<length ?h1} \<and> a \<notin> ?A1
          \<and> nesting_items d \<le> depth"
        using a d1 k1 k2 A1 aA1 nd items1 by (simp add: nth_append)
    qed
    then obtain fin' ext2 where
      run: "sanitize_loop depth ?h1 a rest'
              = Inr (?h1[a := ODict ((treated @ [(key, v')]) @ fin')] @ ext2)" and
      fin': "held_items (?A1 \<union> new_addresses ?h1 ext2)
                (?h1[a := ODict ((treated @ [(key, v')]) @ fin')] @ ext2) fin'
                (sanitize_vendor_data d)"
      by blast
    let ?H = "h[a := ODict (treated @ (key, v') # fin')] @ ext1 @ ext2"
    have H: "?h1[a := ODict ((treated @ [(key, v')]) @ fin')] @ ext2 = ?H"
      using a by (simp add: list_update_append1)
    have foot: "?A1 \<union> new_addresses ?h1 ext2 = A \<union> new_addresses h (ext1 @ ext2)"
      by (auto simp: new_addresses_def)
    have "held ?A1 ?H v' (sanitize_value t)"
      using held_update_append(1)[OF A1 aA1 v', of "ODict (treated @ (key, v') # fin')" ext2] a
      by (simp add: list_update_append1)
    then have hv: "held (A \<union> new_addresses h (ext1 @ ext2)) ?H v' (sanitize_value t)"
      by (rule held_mono(1)[rotated]) (auto simp: new_addresses_def)
    have "sanitize_loop depth h a rest = Inr ?H"
      using rest step run H by simp
    moreover have "held_items (A \<union> new_addresses h (ext1 @ ext2)) ?H ((key, v') # fin')
                (sanitize_vendor_data ((key, t) # d))"
      using fin' hv False unfolding H foot by simp
    ultimately show ?thesis by blast
  qed
qed

lemma comprehension_spec_Nil: "comprehension_spec []"
  unfolding comprehension_spec_def
proof (intro allI impI)
  fix depth h xs A
  assume "held_list A h xs [] \<and> list_all is_dict [] \<and> A \<subseteq> {..<length h} \<and> nesting_list [] \<le> depth"
  then have "sanitize_comprehension depth h xs = Inr ([], h @ [])
      \<and> held_list (A \<union> new_addresses h []) (h @ []) [] (sanitize_each [])"
    by simp
  then show "\<exists>ys ext. sanitize_comprehension depth h xs = Inr (ys, h @ ext)
           \<and> held_list (A \<union> new_addresses h ext) (h @ ext) ys (sanitize_each [])"
    by blast
qed

lemma comprehension_spec_not_dict:
  "\<not> is_dict x \<Longrightarrow> comprehension_spec (x # xs)"
  by (simp add: comprehension_spec_def)

lemma comprehension_spec_Cons:
  assumes sd: "store_spec d" and ih: "comprehension_spec ts"
  shows "comprehension_spec (JDict d # ts)"
  unfolding comprehension_spec_def
proof (intro allI impI)
  fix depth h xs A
  assume pre: "held_list A h xs (JDict d # ts) \<and> list_all is_dict (JDict d # ts)
      \<and> A \<subseteq> {..<length h} \<and> nesting_list (JDict d # ts) \<le> depth"
  then obtain x rest where xs: "xs = x # rest" and x: "held A h x (JDict d)"
    and rest: "held_list A h rest ts"
    by (auto split: list.splits)
  from x obtain r where xr: "x = VRef r"
    by (auto split: pyval.splits)
  from pre have A: "A \<subseteq> {..<length h}" and all: "list_all is_dict ts"
    and nd: "nesting (JDict d) \<le> depth" and nts: "nesting_list ts \<le> depth"
    by auto
  have "\<exists>ext. sanitize_store depth h r = Inr (length h, h @ ext)
           \<and> held (A \<union> new_addresses h ext) (h @ ext) (VRef (length h))
                (JDict (sanitize_vendor_data d))"
    using sd[unfolded store_spec_def] x xr A nd by blast
  then obtain ext1 where
    run1: "sanitize_store depth h r = Inr (length h, h @ ext1)" and
    res1: "held (A \<union> new_addresses h ext1) (h @ ext1) (VRef (length h))
                (JDict (sanitize_vendor_data d))"
    by blast
  let ?h1 = "h @ ext1"
  let ?A1 = "A \<union> new_addresses h ext1"
  have A1: "?A1 \<subseteq> {..<length ?h1}"
    using A by (auto simp: new_addresses_def)
  have rest1: "held_list ?A1 ?h1 rest ts"
    using held_mono(3)[OF _ held_append(3)[OF A rest]] by blast
  have "\<exists>ys ext. sanitize_comprehension depth ?h1 rest = Inr (ys, ?h1 @ ext)
           \<and> held_list (?A1 \<union> new_addresses ?h1 ext) (?h1 @ ext) ys (sanitize_each ts)"
    using ih[unfolded comprehension_spec_def] rest1 all A1 nts by blast
  then obtain ys ext2 where
    run2: "sanitize_comprehension depth ?h1 rest = Inr (ys, ?h1 @ ext2)" and
    res2: "held_list (?A1 \<union> new_addresses ?h1 ext2) (?h1 @ ext2) ys (sanitize_each ts)"
    by blast
  have foot: "?A1 \<union> new_addresses ?h1 ext2 = A \<union> new_addresses h (ext1 @ ext2)"
    by (auto simp: new_addresses_def)
  have "held ?A1 (?h1 @ ext2) (VRef (length h)) (JDict (sanitize_vendor_data d))"
    by (rule held_append(1)[OF A1 res1])
  then have "held ?A1 (h @ ext1 @ ext2) (VRef (length h)) (JDict (sanitize_vendor_data d))"
    by (simp only: append_assoc)
  then have hd: "held (A \<union> new_addresses h (ext1 @ ext2)) (h @ ext1 @ ext2) (VRef (length h))
                   (JDict (sanitize_vendor_data d))"
    by (rule held_mono(1)[rotated]) (auto simp: new_addresses_def)
  have "sanitize_comprehension depth h xs = Inr (VRef (length h) # ys, h @ ext1 @ ext2)"
    using xs xr run1 run2 by simp
  moreover have "held_list (A \<union> new_addresses h (ext1 @ ext2)) (h @ ext1 @ ext2)
                   (VRef (length h) # ys) (sanitize_each (JDict d # ts))"
    using hd res2 unfolding foot by simp
  ultimately show "\<exists>ys ext. sanitize_comprehension depth h xs = Inr (ys, h @ ext)
           \<and> held_list (A \<union> new_addresses h ext) (h @ ext) ys (sanitize_each (JDict d # ts))"
    by blast
qed

lemma sanitize_store_specs:
  "loop_spec d" "value_spec v" "comprehension_spec xs"
proof (induction d and v and xs rule: sanitize_vendor_data_sanitize_value_sanitize_each.induct)
  case 1
  show ?case by (rule loop_spec_Nil)
next
  case (2 key v items)
  show ?case
  proof (rule loop_spec_Cons)
    show "loop_spec items" using 2(1) 2(3) by blast
    show "\<not> has_vendor_field key \<Longrightarrow> value_spec v" by (rule 2(2))
  qed
next
  case (4 d)
  then show ?case by (simp add: value_spec_def store_from_loop)
next
  case (5 xs)
  then show ?case by (cases "list_all is_dict xs") (simp_all add: value_spec_def comprehension_spec_def)
next
  case 10
  show ?case by (rule comprehension_spec_Nil)
next
  case (11 d xs)
  then show ?case by (simp add: comprehension_spec_Cons store_from_loop)
qed (simp_all add: value_spec_def comprehension_spec_not_dict)

lemma sanitize_store_example:
  "sanitize_store (Suc (Suc 0))
         [ODict [(''vendor_id'', VStr ''v1''), (''note'', VStr ''By CustomerScout''),
                 (''nested'', VRef 1), (''tags'', VRef 2)],
          ODict [(''cs_id'', VInt 7), (''title'', VStr ''t'')],
          OList [VStr ''a'', VInt 1]] 0
   = Inr (3,
         [ODict [(''vendor_id'', VStr ''v1''), (''note'', VStr ''By CustomerScout''),
                 (''nested'', VRef 1), (''tags'', VRef 2)],
          ODict [(''cs_id'', VInt 7), (''title'', VStr ''t'')],
          OList [VStr ''a'', VInt 1],
          ODict [(''note'', VStr ''By Rylie SEO''), (''nested'', VRef 4), (''tags'', VRef 2)],
          ODict [(''title'', VStr ''t'')]])"
  by code_simp

text \<open>
  Claim C8. \<^verbatim>\<open>sanitize_vendor_data\<close> returns without raising, returns a new
  object, and leaves the caller's payload as it was: called on a dictionary \<open>data\<close> that
  is the payload \<open>d\<close>, with the interpreter allowing at least as many nested calls as
  dictionaries are nested in \<open>d\<close>, it returns a fresh address; every object of the store
  before the call is unchanged after it, so \<open>data\<close> is still the payload \<open>d\<close>, with
  all its nested dictionaries, lists and strings; and the returned object is the
  redacted payload.
\<close>

theorem C8_sanitize_leaves_payload_intact:
  assumes "holds h (VRef data) (JDict d)" and "nesting (JDict d) \<le> depth"
  shows "\<exists>h'. sanitize_store depth h data = Inr (length h, h')
           \<and> take (length h) h' = h
           \<and> holds h' (VRef (length h)) (JDict (sanitize_vendor_data d))
           \<and> holds h' (VRef data) (JDict d)"
proof -
  let ?A = "UNIV \<inter> {..<length h}"
  have A: "?A \<subseteq> {..<length h}" by simp
  have inA: "held ?A h (VRef data) (JDict d)"
    using assms(1) unfolding holds_def by (rule held_below(1))
  have "store_spec d"
    by (rule store_from_loop[OF sanitize_store_specs(1)])
  then have "\<exists>ext. sanitize_store depth h data = Inr (length h, h @ ext)
           \<and> held (?A \<union> new_addresses h ext) (h @ ext) (VRef (length h))
                (JDict (sanitize_vendor_data d))"
    unfolding store_spec_def using inA A assms(2) by blast
  then obtain ext where
    run: "sanitize_store depth h data = Inr (length h, h @ ext)" and
    res: "held (?A \<union> new_addresses h ext) (h @ ext) (VRef (length h))
                (JDict (sanitize_vendor_data d))"
    by blast
  have new: "holds (h @ ext) (VRef (length h)) (JDict (sanitize_vendor_data d))"
    unfolding holds_def using res by (rule held_mono(1)[rotated]) simp
  have "held ?A (h @ ext) (VRef data) (JDict d)"
    by (rule held_append(1)[OF A inA])
  then have old: "holds (h @ ext) (VRef data) (JDict d)"
    unfolding holds_def by (rule held_mono(1)[rotated]) simp
  have "take (length h) (h @ ext) = h" by simp
  with run new old show ?thesis by blast
qed

theorem C8_witness:
  "holds [ODict [(''vendor_id'', VStr ''v1''), (''note'', VStr ''By CustomerScout''),
                 (''nested'', VRef 1), (''tags'', VRef 2)],
          ODict [(''cs_id'', VInt 7), (''title'', VStr ''t'')],
          OList [VStr ''a'', VInt 1]]
     (VRef 0)
     (JDict [(''vendor_id'', JStr ''v1''), (''note'', JStr ''By CustomerScout''),
             (''nested'', JDict [(''cs_id'', JInt 7), (''title'', JStr ''t'')]),
             (''tags'', JList [JStr ''a'', JInt 1])])
   \<and> nesting
        (JDict [(''vendor_id'', JStr ''v1''), (''note'', JStr ''By CustomerScout''),
             (''nested'', JDict [(''cs_id'', JInt 7), (''title'', JStr ''t'')]),
             (''tags'', JList [JStr ''a'', JInt 1])]) \<le> Suc (Suc 0)
   \<and> (\<exists>h'. sanitize_store (Suc (Suc 0))
         [ODict [(''vendor_id'', VStr ''v1''), (''note'', VStr ''By CustomerScout''),
                 (''nested'', VRef 1), (''tags'', VRef 2)],
          ODict [(''cs_id'', VInt 7), (''title'', VStr ''t'')],
          OList [VStr ''a'', VInt 1]] 0
         = Inr (3, h')
       \<and> take 3 h'
         = [ODict [(''vendor_id'', VStr ''v1''), (''note'', VStr ''By CustomerScout''),
                 (''nested'', VRef 1), (''tags'', VRef 2)],
            ODict [(''cs_id'', VInt 7), (''title'', VStr ''t'')],
            OList [VStr ''a'', VInt 1]]
       \<and> holds h' (VRef 3)
           (JDict [(''note'', JStr ''By Rylie SEO''), (''nested'', JDict [(''title'', JStr ''t'')]),
                   (''tags'', JList [JStr ''a'', JInt 1])])
       \<and> holds h' (VRef 0)
           (JDict [(''vendor_id'', JStr ''v1''), (''note'', JStr ''By CustomerScout''),
             (''nested'', JDict [(''cs_id'', JInt 7), (''title'', JStr ''t'')]),
             (''tags'', JList [JStr ''a'', JInt 1])]))"
proof -
  let ?h = "[ODict [(''vendor_id'', VStr ''v1''), (''note'', VStr ''By CustomerScout''),
                 (''nested'', VRef 1), (''tags'', VRef 2)],
          ODict [(''cs_id'', VInt 7), (''title'', VStr ''t'')],
          OList [VStr ''a'', VInt 1]]"
  let ?d = "[(''vendor_id'', JStr ''v1''), (''note'', JStr ''By CustomerScout''),
             (''nested'', JDict [(''cs_id'', JInt 7), (''title'', JStr ''t'')]),
             (''tags'', JList [JStr ''a'', JInt 1])]"
  have p: "holds ?h (VRef 0) (JDict ?d)"
    by (simp add: holds_def heap_lookup_def)
  have n: "nesting (JDict ?d) \<le> Suc (Suc 0)"
    by simp
  have s: "sanitize_vendor_data ?d
      = [(''note'', JStr ''By Rylie SEO''), (''nested'', JDict [(''title'', JStr ''t'')]),
         (''tags'', JList [JStr ''a'', JInt 1])]"
    by code_simp
  have l: "length ?h = 3"
    by simp
  show ?thesis
    using C8_sanitize_leaves_payload_intact[OF p n] p n unfolding s l by blast
qed

end
